theory Spec2Isabelle
  imports Complex_Main "HOL-Library.Word"
begin

section \<open>Calendar model\<close>

text \<open>
  The dashboard keeps one \<open>MonthlyData[]\<close> per year. A day's status is
  \<open>'safe' | 'near_miss' | 'accident' | null\<close>; \<open>null\<close> (the spec's "unset") is
  \<open>None\<close> here.
\<close>

datatype DayStatus = Safe | NearMiss | Accident

record DailyStatistic =
  day :: int
  status :: "DayStatus option"

record MonthlyData =
  month :: int
  year :: int
  days :: "DailyStatistic list"

text \<open>
  JavaScript array indexing \<open>xs[i]\<close> with optional chaining: out of range it is
  \<open>undefined\<close>, never an error.
\<close>

definition elemAt :: "'a list \<Rightarrow> int \<Rightarrow> 'a option" where
  "elemAt xs i = (if 0 \<le> i \<and> i < int (length xs) then Some (xs ! nat i) else None)"

text \<open>\<open>nextDayStatus\<close>, lines 131-136.\<close>

fun nextDayStatus :: "DayStatus option \<Rightarrow> DayStatus option" where
  "nextDayStatus None = Some Safe"
| "nextDayStatus (Some Safe) = Some NearMiss"
| "nextDayStatus (Some NearMiss) = Some Accident"
| "nextDayStatus (Some Accident) = None"

text \<open>
  The deep copy \<open>prev.map((mm) => ({ ...mm, days: mm.days.map((dd) => ({ ...dd })) }))\<close>
  used by \<open>setDayStatus\<close> and by \<open>ensureNext\<close>: fresh objects with the same fields.
\<close>

definition copyDay :: "DailyStatistic \<Rightarrow> DailyStatistic" where
  "copyDay dd = \<lparr>day = day dd, status = status dd\<rparr>"

definition copyMonth :: "MonthlyData \<Rightarrow> MonthlyData" where
  "copyMonth mm = \<lparr>month = month mm, year = year mm, days = map copyDay (days mm)\<rparr>"

definition copyCalendar :: "MonthlyData list \<Rightarrow> MonthlyData list" where
  "copyCalendar prev = map copyMonth prev"

text \<open>
  \<open>setDayStatus\<close>, lines 604-614: the state updater it passes to \<open>setMonthlyData\<close>,
  with the displayed month it closes over made a parameter. \<open>!month\<close> and
  \<open>!target\<close> are the two early returns of \<open>prev\<close>.
\<close>

definition setDayStatus :: "MonthlyData list \<Rightarrow> int \<Rightarrow> int \<Rightarrow> DayStatus option \<Rightarrow> MonthlyData list" where
  "setDayStatus prev displayMonth d st =
     (let next = copyCalendar prev in
      case elemAt next displayMonth of
        None \<Rightarrow> prev
      | Some mm \<Rightarrow>
          (case elemAt (days mm) (d - 1) of
             None \<Rightarrow> prev
           | Some target \<Rightarrow>
               next[nat displayMonth :=
                 mm\<lparr>days := (days mm)[nat (d - 1) := target\<lparr>status := st\<rparr>]\<rparr>]))"

text \<open>
  \<open>displayMonthData?.days?.[day - 1]?.status ?? null\<close>: the status read through
  optional chaining, \<open>null\<close> when the month or the day does not exist.
\<close>

definition statusOrNull :: "MonthlyData list \<Rightarrow> int \<Rightarrow> int \<Rightarrow> DayStatus option" where
  "statusOrNull monthlyData m d =
     (case elemAt monthlyData m of
        None \<Rightarrow> None
      | Some mm \<Rightarrow> (case elemAt (days mm) (d - 1) of None \<Rightarrow> None | Some dd \<Rightarrow> status dd))"

text \<open>
  \<open>cycleDayStatus\<close>, lines 616-619. The status is read from the rendered
  calendar and the update is applied to the current one; between two clicks the
  component re-renders, so both are the same calendar.
\<close>

definition cycleDayStatus :: "MonthlyData list \<Rightarrow> int \<Rightarrow> int \<Rightarrow> MonthlyData list" where
  "cycleDayStatus monthlyData displayMonth d =
     setDayStatus monthlyData displayMonth d (nextDayStatus (statusOrNull monthlyData displayMonth d))"

text \<open>
  What an observer can read of a calendar at a position: \<open>None\<close> when month
  \<open>m\<close> or day number \<open>d\<close> is out of range, otherwise the day record stored there.
\<close>

definition dayAt :: "MonthlyData list \<Rightarrow> int \<Rightarrow> int \<Rightarrow> DailyStatistic option" where
  "dayAt cal m d = (case elemAt cal m of None \<Rightarrow> None | Some mm \<Rightarrow> elemAt (days mm) (d - 1))"

definition inRange :: "MonthlyData list \<Rightarrow> int \<Rightarrow> int \<Rightarrow> bool" where
  "inRange cal m d = (dayAt cal m d \<noteq> None)"

subsection \<open>Copies are equal to their originals\<close>

lemma copyDay_id: "copyDay dd = dd"
  by (simp add: copyDay_def)

lemma copyMonth_id: "copyMonth mm = mm"
  by (simp add: copyMonth_def copyDay_id map_idI)

lemma copyCalendar_id: "copyCalendar prev = prev"
  by (simp add: copyCalendar_def copyMonth_id map_idI)

lemma elemAt_Some_iff: "elemAt xs i = Some x \<longleftrightarrow> 0 \<le> i \<and> i < int (length xs) \<and> x = xs ! nat i"
  by (auto simp: elemAt_def)

lemma elemAt_None_iff: "elemAt xs i = None \<longleftrightarrow> \<not> (0 \<le> i \<and> i < int (length xs))"
  by (simp add: elemAt_def)

lemma elemAt_list_update:
  "elemAt (xs[k := v]) i = (if 0 \<le> i \<and> nat i = k \<and> k < length xs then Some v else elemAt xs i)"
  by (auto simp: elemAt_def)

subsection \<open>Facts about \<open>setDayStatus\<close> and \<open>cycleDayStatus\<close>\<close>

lemma inRange_iff:
  "inRange cal m d \<longleftrightarrow> 0 \<le> m \<and> m < int (length cal) \<and> 0 \<le> d - 1 \<and> d - 1 < int (length (days (cal ! nat m)))"
  by (auto simp: inRange_def dayAt_def elemAt_def)

lemma setDayStatus_out: "\<not> inRange prev dm d \<Longrightarrow> setDayStatus prev dm d st = prev"
  by (auto simp: inRange_def dayAt_def setDayStatus_def copyCalendar_id split: option.splits)

lemma setDayStatus_in:
  "inRange prev dm d \<Longrightarrow> setDayStatus prev dm d st =
     prev[nat dm := (prev ! nat dm)\<lparr>days := (days (prev ! nat dm))[nat (d - 1) :=
        (days (prev ! nat dm) ! nat (d - 1))\<lparr>status := st\<rparr>]\<rparr>]"
  by (auto simp: inRange_def dayAt_def setDayStatus_def copyCalendar_id elemAt_def split: option.splits if_splits)

lemma inRange_setDayStatus: "inRange (setDayStatus prev dm d st) m' d' = inRange prev m' d'"
proof (cases "inRange prev dm d")
  case True
  show ?thesis
    by (cases "nat m' = nat dm") (auto simp: setDayStatus_in[OF True] inRange_iff nth_list_update)
next
  case False
  then show ?thesis by (simp add: setDayStatus_out)
qed

lemma dayAt_setDayStatus:
  "dayAt (setDayStatus prev dm d st) m' d' =
     (if inRange prev dm d \<and> m' = dm \<and> d' = d
      then map_option (\<lambda>dd. dd\<lparr>status := st\<rparr>) (dayAt prev dm d)
      else dayAt prev m' d')"
proof (cases "inRange prev dm d")
  case True
  then have r: "0 \<le> dm" "dm < int (length prev)" "0 \<le> d - 1" "d - 1 < int (length (days (prev ! nat dm)))"
    by (simp_all add: inRange_iff)
  show ?thesis
    using r by (auto simp: setDayStatus_in[OF True] dayAt_def elemAt_def nth_list_update True)
next
  case False
  then show ?thesis by (simp add: setDayStatus_out)
qed

lemma setDayStatus_twice:
  "setDayStatus (setDayStatus prev dm d s1) dm d s2 = setDayStatus prev dm d s2"
proof (cases "inRange prev dm d")
  case True
  then have T2: "inRange (setDayStatus prev dm d s1) dm d" by (simp add: inRange_setDayStatus)
  from True have r: "0 \<le> dm" "dm < int (length prev)" "0 \<le> d - 1" "d - 1 < int (length (days (prev ! nat dm)))"
    by (simp_all add: inRange_iff)
  show ?thesis
    unfolding setDayStatus_in[OF T2] unfolding setDayStatus_in[OF True]
    using r by simp
next
  case False
  then show ?thesis by (simp add: setDayStatus_out)
qed

lemma statusOrNull_dayAt: "statusOrNull cal m d = (case dayAt cal m d of None \<Rightarrow> None | Some dd \<Rightarrow> status dd)"
  by (simp add: statusOrNull_def dayAt_def split: option.splits)

lemma setDayStatus_same:
  "setDayStatus prev dm d (statusOrNull prev dm d) = prev"
proof (cases "inRange prev dm d")
  case True
  then have r: "0 \<le> dm" "dm < int (length prev)" "0 \<le> d - 1" "d - 1 < int (length (days (prev ! nat dm)))"
    by (simp_all add: inRange_iff)
  have s: "statusOrNull prev dm d = status (days (prev ! nat dm) ! nat (d - 1))"
    using r by (simp add: statusOrNull_def elemAt_def)
  show ?thesis unfolding setDayStatus_in[OF True] s by (simp add: list_update_same_conv r)
next
  case False
  then show ?thesis by (simp add: setDayStatus_out)
qed

lemma statusOrNull_setDayStatus:
  "inRange prev dm d \<Longrightarrow> statusOrNull (setDayStatus prev dm d st) dm d = st"
  by (auto simp: statusOrNull_dayAt dayAt_setDayStatus inRange_def split: option.splits)

lemma nextDayStatus_four: "nextDayStatus (nextDayStatus (nextDayStatus (nextDayStatus s))) = s"
  by (cases s rule: nextDayStatus.cases) simp_all

lemma cycle_four:
  "cycleDayStatus (cycleDayStatus (cycleDayStatus (cycleDayStatus cal dm d) dm d) dm d) dm d = cal"
proof (cases "inRange cal dm d")
  case True
  show ?thesis
    by (simp add: cycleDayStatus_def statusOrNull_setDayStatus True inRange_setDayStatus
        setDayStatus_twice nextDayStatus_four setDayStatus_same)
next
  case False
  then show ?thesis by (simp add: cycleDayStatus_def setDayStatus_out)
qed

text \<open>
  Claim C6. With an in-range month index and day, \<open>setDayStatus\<close> returns a calendar
  in which that day has the given status (and its day number as before), while every
  other position of every month reads as before and the months keep their \<open>month\<close>,
  \<open>year\<close> and number of days. With an out-of-range month index or day it returns
  its input; the function has no failing branch.
\<close>

theorem setDayStatus_changes_one_day:
  "(inRange prev dm d \<longrightarrow>
      map_option status (dayAt (setDayStatus prev dm d st) dm d) = Some st
    \<and> map_option day (dayAt (setDayStatus prev dm d st) dm d) = map_option day (dayAt prev dm d)
    \<and> (\<forall>m' d'. (m', d') \<noteq> (dm, d) \<longrightarrow>
          dayAt (setDayStatus prev dm d st) m' d' = dayAt prev m' d')
    \<and> map month (setDayStatus prev dm d st) = map month prev
    \<and> map year (setDayStatus prev dm d st) = map year prev
    \<and> map (\<lambda>mm. length (days mm)) (setDayStatus prev dm d st) = map (\<lambda>mm. length (days mm)) prev)
   \<and> (\<not> inRange prev dm d \<longrightarrow> setDayStatus prev dm d st = prev)"
proof (cases "inRange prev dm d")
  case True
  then obtain dd where dd: "dayAt prev dm d = Some dd"
    by (auto simp: inRange_def)
  have r: "0 \<le> dm" "dm < int (length prev)"
    using True by (simp_all add: inRange_iff)
  have a: "map_option status (dayAt (setDayStatus prev dm d st) dm d) = Some st"
    by (simp add: dayAt_setDayStatus True dd)
  have b: "map_option day (dayAt (setDayStatus prev dm d st) dm d) = map_option day (dayAt prev dm d)"
    by (simp add: dayAt_setDayStatus True dd)
  have c: "\<forall>m' d'. (m', d') \<noteq> (dm, d) \<longrightarrow>
      dayAt (setDayStatus prev dm d st) m' d' = dayAt prev m' d'"
    by (auto simp: dayAt_setDayStatus)
  have e: "map month (setDayStatus prev dm d st) = map month prev"
    using r by (simp add: setDayStatus_in[OF True] map_update list_update_same_conv)
  have f: "map year (setDayStatus prev dm d st) = map year prev"
    using r by (simp add: setDayStatus_in[OF True] map_update list_update_same_conv)
  have g: "map (\<lambda>mm. length (days mm)) (setDayStatus prev dm d st) = map (\<lambda>mm. length (days mm)) prev"
    using r by (simp add: setDayStatus_in[OF True] map_update list_update_same_conv)
  show ?thesis using True a b c e f g by blast
next
  case False
  then show ?thesis by (simp add: setDayStatus_out)
qed

text \<open>A two-day January: day 2 is set to accident; month index 5 does not exist.\<close>

definition sampleMonth :: "MonthlyData list" where
  "sampleMonth = [\<lparr>month = 0, year = 2026,
      days = [\<lparr>day = 1, status = None\<rparr>, \<lparr>day = 2, status = Some Safe\<rparr>]\<rparr>]"

theorem setDayStatus_changes_one_day_witness:
  "inRange sampleMonth 0 2
   \<and> dayAt (setDayStatus sampleMonth 0 2 (Some Accident)) 0 2 = Some \<lparr>day = 2, status = Some Accident\<rparr>
   \<and> dayAt (setDayStatus sampleMonth 0 2 (Some Accident)) 0 1 = Some \<lparr>day = 1, status = None\<rparr>
   \<and> \<not> inRange sampleMonth 5 1
   \<and> setDayStatus sampleMonth 5 1 (Some Accident) = sampleMonth"
proof -
  have i: "inRange sampleMonth 0 2" and o: "\<not> inRange sampleMonth 5 1"
    by (simp_all add: inRange_def dayAt_def elemAt_def sampleMonth_def)
  have d2: "dayAt sampleMonth 0 2 = Some \<lparr>day = 2, status = Some Safe\<rparr>"
    and d1: "dayAt sampleMonth 0 1 = Some \<lparr>day = 1, status = None\<rparr>"
    by (simp_all add: dayAt_def elemAt_def sampleMonth_def)
  note t = setDayStatus_changes_one_day [of sampleMonth 0 2 "Some Accident"]
  note u = setDayStatus_changes_one_day [of sampleMonth 5 1 "Some Accident"]
  from t i have s: "map_option status (dayAt (setDayStatus sampleMonth 0 2 (Some Accident)) 0 2) = Some (Some Accident)"
    and n: "map_option day (dayAt (setDayStatus sampleMonth 0 2 (Some Accident)) 0 2) = Some 2"
    and k: "dayAt (setDayStatus sampleMonth 0 2 (Some Accident)) 0 1 = dayAt sampleMonth 0 1"
    by (simp_all add: d2)
  from s n have "dayAt (setDayStatus sampleMonth 0 2 (Some Accident)) 0 2 = Some \<lparr>day = 2, status = Some Accident\<rparr>"
    by (cases "dayAt (setDayStatus sampleMonth 0 2 (Some Accident)) 0 2") auto
  moreover from u o have "setDayStatus sampleMonth 5 1 (Some Accident) = sampleMonth"
    by simp
  ultimately show ?thesis using i o k d1 by simp
qed

text \<open>
  Claim C8. \<open>nextDayStatus\<close> is the fixed wrapping order unset, safe, near miss,
  accident, unset; one \<open>cycleDayStatus\<close> advances the clicked day's status by it
  (out of range nothing is there to advance); and four of them on the same day give
  back the calendar they started from, every status included.
\<close>

theorem cycleDayStatus_four_times:
  "nextDayStatus None = Some Safe
   \<and> nextDayStatus (Some Safe) = Some NearMiss
   \<and> nextDayStatus (Some NearMiss) = Some Accident
   \<and> nextDayStatus (Some Accident) = None
   \<and> map_option status (dayAt (cycleDayStatus cal dm d) dm d)
       = map_option (\<lambda>dd. nextDayStatus (status dd)) (dayAt cal dm d)
   \<and> cycleDayStatus (cycleDayStatus (cycleDayStatus (cycleDayStatus cal dm d) dm d) dm d) dm d = cal"
proof -
  have "map_option status (dayAt (cycleDayStatus cal dm d) dm d)
       = map_option (\<lambda>dd. nextDayStatus (status dd)) (dayAt cal dm d)"
    by (cases "dayAt cal dm d")
       (simp_all add: cycleDayStatus_def dayAt_setDayStatus inRange_def statusOrNull_dayAt)
  then show ?thesis by (simp add: cycle_four)
qed

theorem cycleDayStatus_four_times_witness:
  "map_option status (dayAt (cycleDayStatus sampleMonth 0 1) 0 1) = Some (Some Safe)
   \<and> cycleDayStatus (cycleDayStatus (cycleDayStatus (cycleDayStatus sampleMonth 0 1) 0 1) 0 1) 0 1
       = sampleMonth"
  using cycleDayStatus_four_times [of sampleMonth 0 1]
  by (simp add: dayAt_def elemAt_def sampleMonth_def)

section \<open>Expression evaluator\<close>

text \<open>
  A JavaScript string is a sequence of UTF-16 code units. \<open>js\<close> turns an ASCII
  literal into one.
\<close>

type_synonym jsstring = "16 word list"

definition js :: "string \<Rightarrow> jsstring" where
  "js str = map (\<lambda>c. of_nat (of_char c)) str"

text \<open>
  The code units that \<open>String.prototype.trim\<close> strips and that \<open>\s\<close> matches in
  a regular expression: ECMAScript defines both as WhiteSpace and LineTerminator.
\<close>

definition isWhiteSpace :: "16 word \<Rightarrow> bool" where
  "isWhiteSpace c =
     (c = 0x0009 \<or> c = 0x000A \<or> c = 0x000B \<or> c = 0x000C \<or> c = 0x000D \<or> c = 0x0020
      \<or> c = 0x00A0 \<or> c = 0x1680 \<or> (0x2000 \<le> c \<and> c \<le> 0x200A) \<or> c = 0x2028 \<or> c = 0x2029
      \<or> c = 0x202F \<or> c = 0x205F \<or> c = 0x3000 \<or> c = 0xFEFF)"

definition trim :: "jsstring \<Rightarrow> jsstring" where
  "trim s = rev (dropWhile isWhiteSpace (rev (dropWhile isWhiteSpace s)))"

text \<open>
  The character class \<open>[0-9a-zA-Z_+\-*/().\s]\<close> of line 320, and the test
  \<open>/^[...]*$/.test(s)\<close>: every code unit of \<open>s\<close> is in the class.
\<close>

definition allowedChar :: "16 word \<Rightarrow> bool" where
  "allowedChar c =
     ((0x30 \<le> c \<and> c \<le> 0x39) \<or> (0x61 \<le> c \<and> c \<le> 0x7A) \<or> (0x41 \<le> c \<and> c \<le> 0x5A)
      \<or> c = 0x5F \<or> c = 0x2B \<or> c = 0x2D \<or> c = 0x2A \<or> c = 0x2F \<or> c = 0x28 \<or> c = 0x29
      \<or> c = 0x2E \<or> isWhiteSpace c)"

definition whitelistTest :: "jsstring \<Rightarrow> bool" where
  "whitelistTest s = list_all allowedChar s"

text \<open>
  What compiling and calling \<open>new Function('vars', body)\<close> can come to, as far as
  \<open>safeEval\<close> tells the cases apart: a finite number, a number that is not finite, a
  value that is not a number, or an exception (a SyntaxError of the constructor
  included), which the \<open>catch\<close> turns into \<open>null\<close>.
\<close>

datatype 'n completion = ReturnedNumber 'n | ReturnedNonFinite | ReturnedOther | Thrown

text \<open>The program text of line 323.\<close>

definition functionBody :: "jsstring \<Rightarrow> jsstring" where
  "functionBody s = js ''with(vars){ return ('' @ s @ js ''); }''"

text \<open>
  \<open>safeEval\<close>, lines 316-330. The JavaScript engine behind \<open>new Function\<close> is the
  parameter \<open>newFunction\<close>: given the program text and \<open>vars\<close> it runs in the
  realm \<open>w\<close> of the page (globals, storage, the random number generator) and leaves
  a realm behind. \<open>'n\<close> is the type of finite numbers.
\<close>

definition safeEval ::
  "(jsstring \<Rightarrow> (jsstring \<rightharpoonup> 'n) \<Rightarrow> 'w \<Rightarrow> 'n completion \<times> 'w)
     \<Rightarrow> jsstring \<Rightarrow> (jsstring \<rightharpoonup> 'n) \<Rightarrow> 'w \<Rightarrow> 'n option \<times> 'w" where
  "safeEval newFunction expr vars w =
     (let s = trim expr in
      if s = [] then (None, w)
      else if \<not> whitelistTest s then (None, w)
      else
        (case newFunction (functionBody s) vars w of
           (ReturnedNumber out, w') \<Rightarrow> (Some out, w')
         | (_, w') \<Rightarrow> (None, w')))"

text \<open>
  An engine to probe \<open>safeEval\<close> with: it logs the program text it is given and
  returns a value that is not a number (as the promise of an \<open>import(...)\<close> is).
\<close>

definition promiseProbe ::
  "jsstring \<Rightarrow> (jsstring \<rightharpoonup> int) \<Rightarrow> jsstring list \<Rightarrow> int completion \<times> jsstring list" where
  "promiseProbe body vars calls = (ReturnedOther, calls @ [body])"

lemmas evalExpr = safeEval_def functionBody_def whitelistTest_def trim_def js_def
  allowedChar_def isWhiteSpace_def

lemma dropWhile_keeps: "x \<in> set xs \<Longrightarrow> \<not> P x \<Longrightarrow> x \<in> set (dropWhile P xs)"
  by (induction xs) auto

lemma trim_keeps: "c \<in> set s \<Longrightarrow> \<not> isWhiteSpace c \<Longrightarrow> c \<in> set (trim s)"
  by (simp add: trim_def dropWhile_keeps)

lemma not_allowed_not_space: "\<not> allowedChar c \<Longrightarrow> \<not> isWhiteSpace c"
  by (simp add: allowedChar_def)

lemma safeEval_rejects:
  assumes "\<exists>c \<in> set expr. \<not> allowedChar c"
  shows "safeEval newFunction expr vars w = (None, w)"
proof -
  from assms obtain c where c: "c \<in> set expr" "\<not> allowedChar c" by blast
  then have "c \<in> set (trim expr)" by (simp add: trim_keeps not_allowed_not_space)
  with c have "\<not> whitelistTest (trim expr)" by (auto simp: whitelistTest_def list_all_iff)
  then show ?thesis by (simp add: safeEval_def Let_def)
qed

text \<open>
  Whatever passes the two tests is handed to the engine, and the engine's answer and
  realm are all that \<open>safeEval\<close> returns.
\<close>

lemma safeEval_hands_over:
  assumes "trim expr \<noteq> []" "whitelistTest (trim expr)"
  shows "safeEval newFunction expr vars w =
     (case newFunction (functionBody (trim expr)) vars w of
        (ReturnedNumber out, w') \<Rightarrow> (Some out, w')
      | (_, w') \<Rightarrow> (None, w'))"
  using assms by (simp add: safeEval_def Let_def)

text \<open>
  Claim C1 (the code departs from it). The claim wants \<open>safeEval\<close> to resolve no
  name and reach no state outside \<open>vars\<close>. \<open>Math.random()\<close> and
  \<open>localStorage.clear()\<close> are made of whitelisted characters only, so \<open>safeEval\<close>
  hands them, wrapped in \<open>with(vars){ return (...); }\<close>, to the general evaluator:
  its result and the realm it leaves are whatever running that program in the
  page's realm gives, for every \<open>vars\<close>.
\<close>

theorem safeEval_runs_global_calls:
  "safeEval newFunction (js ''Math.random()'') vars w =
     (case newFunction (js ''with(vars){ return (Math.random()); }'') vars w of
        (ReturnedNumber out, w') \<Rightarrow> (Some out, w')
      | (_, w') \<Rightarrow> (None, w'))
   \<and> safeEval newFunction (js ''localStorage.clear()'') vars w =
     (case newFunction (js ''with(vars){ return (localStorage.clear()); }'') vars w of
        (ReturnedNumber out, w') \<Rightarrow> (Some out, w')
      | (_, w') \<Rightarrow> (None, w'))"
  by (simp add: evalExpr)

text \<open>
  Claim C2, as the code has it. An expression with a code unit outside the class is
  answered \<open>null\<close> whatever the engine is, and the realm is as before: the engine
  is not run. \<open>import(1)\<close> is not such an expression: the test of line 320 accepts
  it, and \<open>safeEval\<close> answers what the engine makes of
  \<open>with(vars){ return (import(1)); }\<close>.
\<close>

theorem safeEval_whitelist:
  "((\<exists>c \<in> set expr. \<not> allowedChar c) \<longrightarrow> safeEval newFunction expr vars w = (None, w))
   \<and> whitelistTest (trim (js ''import(1)''))
   \<and> safeEval newFunction (js ''import(1)'') vars w =
       (case newFunction (js ''with(vars){ return (import(1)); }'') vars w of
          (ReturnedNumber out, w') \<Rightarrow> (Some out, w')
        | (_, w') \<Rightarrow> (None, w'))"
proof -
  have "whitelistTest (trim (js ''import(1)''))"
    by (simp add: evalExpr)
  moreover have "safeEval newFunction (js ''import(1)'') vars w =
       (case newFunction (js ''with(vars){ return (import(1)); }'') vars w of
          (ReturnedNumber out, w') \<Rightarrow> (Some out, w')
        | (_, w') \<Rightarrow> (None, w'))"
    by (simp add: evalExpr)
  ultimately show ?thesis
    using safeEval_rejects [of expr newFunction vars w] by blast
qed

text \<open>\<open>a = 1\<close> has the code unit \<open>=\<close> (0x3D), which is outside the class.\<close>

theorem safeEval_whitelist_witness:
  "0x3D \<in> set (js ''a = 1'') \<and> \<not> allowedChar 0x3D
   \<and> safeEval promiseProbe (js ''a = 1'') Map.empty [] = (None, [])"
proof -
  have m: "0x3D \<in> set (js ''a = 1'')" and n: "\<not> allowedChar 0x3D"
    by (simp_all add: js_def allowedChar_def isWhiteSpace_def)
  then have "\<exists>c \<in> set (js ''a = 1''). \<not> allowedChar c" by blast
  with safeEval_whitelist [of "js ''a = 1''" promiseProbe Map.empty "[]"]
  have "safeEval promiseProbe (js ''a = 1'') Map.empty [] = (None, [])" by blast
  with m n show ?thesis by simp
qed

text \<open>
  The claim as written fails at \<open>import(1)\<close>: the whitelist accepts it and the
  engine is run on it (the probe's log holds the program text).
\<close>

theorem import_not_rejected_by_whitelist:
  "whitelistTest (trim (js ''import(1)''))
   \<and> safeEval promiseProbe (js ''import(1)'') Map.empty []
       = (None, [js ''with(vars){ return (import(1)); }''])"
  by (simp add: evalExpr promiseProbe_def)


section \<open>Dates\<close>

text \<open>
  The \<open>Date\<close> objects of the program are modelled by their time value taken in
  local time, in milliseconds, and the \<open>Date\<close> methods by the abstract operations
  ECMAScript defines them with (\<open>Day\<close>, \<open>DayFromYear\<close>, \<open>YearFromTime\<close>,
  \<open>MonthFromTime\<close>, \<open>DateFromTime\<close>, \<open>MakeDay\<close>, \<open>MakeDate\<close>). The offset of
  the local zone is taken constant, so that comparing two dates compares their local
  time values.
\<close>

type_synonym Date = int

definition msPerDay :: int where "msPerDay = 86400000"
definition msPerHour :: int where "msPerHour = 3600000"
definition msPerMinute :: int where "msPerMinute = 60000"

definition Day :: "int \<Rightarrow> int" where "Day t = t div msPerDay"
definition TimeWithinDay :: "int \<Rightarrow> int" where "TimeWithinDay t = t mod msPerDay"

definition DaysInYear :: "int \<Rightarrow> int" where
  "DaysInYear y = (if y mod 4 \<noteq> 0 then 365 else if y mod 100 \<noteq> 0 then 366
                   else if y mod 400 \<noteq> 0 then 365 else 366)"

definition DayFromYear :: "int \<Rightarrow> int" where
  "DayFromYear y = 365 * (y - 1970) + (y - 1969) div 4 - (y - 1901) div 100 + (y - 1601) div 400"

lemma div_step:
  fixes a k :: int
  assumes k: "0 < k"
  shows "(a + 1) div k = a div k + (if (a + 1) mod k = 0 then 1 else 0)"
proof -
  define q where "q = a div k"
  define r where "r = a mod k"
  have a: "a = k * q + r" by (simp add: q_def r_def)
  have r: "0 \<le> r" "r < k" using k by (simp_all add: r_def)
  show ?thesis
  proof (cases "r + 1 < k")
    case True
    have e: "a + 1 = k * q + (r + 1)" using a by simp
    have "(a + 1) div k = q" using e r True by (intro int_div_pos_eq[of _ k q "r + 1"]) simp_all
    moreover have "(a + 1) mod k = r + 1" using e r True by (intro int_mod_pos_eq[of _ k q "r + 1"]) simp_all
    ultimately show ?thesis using r by (simp add: q_def)
  next
    case False
    with r have rk: "r + 1 = k" by simp
    have e: "a + 1 = k * (q + 1) + 0" using a rk by (simp add: algebra_simps)
    have "(a + 1) div k = q + 1" using e k by (intro int_div_pos_eq[of _ k "q + 1" 0]) simp_all
    moreover have "(a + 1) mod k = 0" using e k by (intro int_mod_pos_eq[of _ k "q + 1" 0]) simp_all
    ultimately show ?thesis by (simp add: q_def)
  qed
qed

lemma mod_shift:
  fixes y c k :: int
  assumes "k dvd c"
  shows "(y - c) mod k = 0 \<longleftrightarrow> y mod k = 0"
  using assms by (simp add: mod_eq_0_iff_dvd dvd_diff_left_iff)

lemma DayFromYear_Suc: "DayFromYear (y + 1) = DayFromYear y + DaysInYear y"
proof -
  have a: "(y - 1968) div 4 = (y - 1969) div 4 + (if y mod 4 = 0 then 1 else 0)"
    using div_step[of 4 "y - 1969"] mod_shift[of 4 1968 y] by simp
  have b: "(y - 1900) div 100 = (y - 1901) div 100 + (if y mod 100 = 0 then 1 else 0)"
    using div_step[of 100 "y - 1901"] mod_shift[of 100 1900 y] by simp
  have c: "(y - 1600) div 400 = (y - 1601) div 400 + (if y mod 400 = 0 then 1 else 0)"
    using div_step[of 400 "y - 1601"] mod_shift[of 400 1600 y] by simp
  have d: "y mod 400 = 0 \<Longrightarrow> y mod 100 = 0"
    by (simp add: mod_eq_0_iff_dvd) (erule dvd_trans[rotated], simp)
  have e: "y mod 100 = 0 \<Longrightarrow> y mod 4 = 0"
    by (simp add: mod_eq_0_iff_dvd) (erule dvd_trans[rotated], simp)
  have "DayFromYear (y + 1) =
      365 * (y - 1969) + (y - 1968) div 4 - (y - 1900) div 100 + (y - 1600) div 400"
    by (simp add: DayFromYear_def)
  also have "\<dots> = DayFromYear y + DaysInYear y"
    unfolding a b c DayFromYear_def DaysInYear_def using d e by auto
  finally show ?thesis .
qed

lemma DaysInYear_pos: "0 < DaysInYear y"
  by (simp add: DaysInYear_def)

text \<open>
  \<open>YearFromTime(t)\<close> is the largest \<open>y\<close> with \<open>DayFromYear y\<close> at or before the day
  of \<open>t\<close>: a search down, then up, from an estimate.
\<close>

function yearDown :: "int \<Rightarrow> int \<Rightarrow> int" where
  "yearDown y n = (if n < DayFromYear y then yearDown (y - 1) n else y)"
  by pat_completeness auto
termination
proof (relation "measure (\<lambda>(y, n). nat (DayFromYear y - n))")
  show "wf (measure (\<lambda>(y, n). nat (DayFromYear y - n)))" by simp
next
  fix y n :: int
  assume "n < DayFromYear y"
  moreover have "DayFromYear (y - 1) < DayFromYear y"
    using DayFromYear_Suc[of "y - 1"] DaysInYear_pos[of "y - 1"] by simp
  ultimately show "((y - 1, n), (y, n)) \<in> measure (\<lambda>(y, n). nat (DayFromYear y - n))"
    by simp
qed

function yearUp :: "int \<Rightarrow> int \<Rightarrow> int" where
  "yearUp y n = (if DayFromYear (y + 1) \<le> n then yearUp (y + 1) n else y)"
  by pat_completeness auto
termination
proof (relation "measure (\<lambda>(y, n). nat (n - DayFromYear y))")
  show "wf (measure (\<lambda>(y, n). nat (n - DayFromYear y)))" by simp
next
  fix y n :: int
  assume "DayFromYear (y + 1) \<le> n"
  moreover have "DayFromYear y < DayFromYear (y + 1)"
    using DayFromYear_Suc[of y] DaysInYear_pos[of y] by simp
  ultimately show "((y + 1, n), (y, n)) \<in> measure (\<lambda>(y, n). nat (n - DayFromYear y))"
    by simp
qed

declare yearUp.simps [simp del] yearDown.simps [simp del]

definition YearFromDay :: "int \<Rightarrow> int" where
  "YearFromDay n = yearUp (yearDown (1970 + n div 365) n) n"


lemma yearDown_le: "DayFromYear (yearDown y n) \<le> n"
proof (induction y n rule: yearDown.induct)
  case (1 y n)
  show ?case
  proof (cases "n < DayFromYear y")
    case True
    with "1.IH" show ?thesis by (subst yearDown.simps) simp
  next
    case False
    then show ?thesis by (subst yearDown.simps) simp
  qed
qed

lemma yearUp_bounds:
  "DayFromYear y \<le> n \<Longrightarrow> DayFromYear (yearUp y n) \<le> n \<and> n < DayFromYear (yearUp y n + 1)"
proof (induction y n rule: yearUp.induct)
  case (1 y n)
  show ?case
  proof (cases "DayFromYear (y + 1) \<le> n")
    case True
    with "1.IH" show ?thesis by (subst (1 2) yearUp.simps) simp
  next
    case False
    with "1.prems" show ?thesis by (subst (1 2) yearUp.simps) simp
  qed
qed

lemma YearFromDay_bounds: "DayFromYear (YearFromDay n) \<le> n \<and> n < DayFromYear (YearFromDay n + 1)"
  unfolding YearFromDay_def by (rule yearUp_bounds) (rule yearDown_le)

lemma DayFromYear_mono: "a \<le> b \<Longrightarrow> DayFromYear a \<le> DayFromYear b"
proof (induction b rule: int_ge_induct)
  case base
  show ?case by simp
next
  case (step i)
  have "DayFromYear i \<le> DayFromYear (i + 1)"
    using DayFromYear_Suc[of i] DaysInYear_pos[of i] by simp
  with step show ?case by simp
qed

lemma YearFromDay_iff: "YearFromDay n = y \<longleftrightarrow> DayFromYear y \<le> n \<and> n < DayFromYear (y + 1)"
proof
  assume "YearFromDay n = y"
  with YearFromDay_bounds[of n] show "DayFromYear y \<le> n \<and> n < DayFromYear (y + 1)" by simp
next
  assume a: "DayFromYear y \<le> n \<and> n < DayFromYear (y + 1)"
  let ?z = "YearFromDay n"
  note b = YearFromDay_bounds[of n]
  have "\<not> ?z < y"
  proof
    assume "?z < y"
    then have "DayFromYear (?z + 1) \<le> DayFromYear y" by (intro DayFromYear_mono) simp
    with a b show False by simp
  qed
  moreover have "\<not> y < ?z"
  proof
    assume "y < ?z"
    then have "DayFromYear (y + 1) \<le> DayFromYear ?z" by (intro DayFromYear_mono) simp
    with a b show False by simp
  qed
  ultimately show "?z = y" by simp
qed


definition YearFromTime :: "int \<Rightarrow> int" where "YearFromTime t = YearFromDay (Day t)"

definition leapFlag :: "int \<Rightarrow> int" where
  "leapFlag y = (if DaysInYear y = 365 then 0 else 1)"

definition InLeapYear :: "int \<Rightarrow> int" where "InLeapYear t = leapFlag (YearFromTime t)"

definition DayWithinYear :: "int \<Rightarrow> int" where
  "DayWithinYear t = Day t - DayFromYear (YearFromTime t)"

definition monthStart :: "int \<Rightarrow> int \<Rightarrow> int" where
  "monthStart L m =
     (if m = 0 then 0 else if m = 1 then 31 else if m = 2 then 59 + L
      else if m = 3 then 90 + L else if m = 4 then 120 + L else if m = 5 then 151 + L
      else if m = 6 then 181 + L else if m = 7 then 212 + L else if m = 8 then 243 + L
      else if m = 9 then 273 + L else if m = 10 then 304 + L else 334 + L)"

definition monthOfDay :: "int \<Rightarrow> int \<Rightarrow> int" where
  "monthOfDay L d =
     (if d < 31 then 0 else if d < 59 + L then 1 else if d < 90 + L then 2
      else if d < 120 + L then 3 else if d < 151 + L then 4 else if d < 181 + L then 5
      else if d < 212 + L then 6 else if d < 243 + L then 7 else if d < 273 + L then 8
      else if d < 304 + L then 9 else if d < 334 + L then 10 else 11)"

definition MonthFromTime :: "int \<Rightarrow> int" where
  "MonthFromTime t = monthOfDay (InLeapYear t) (DayWithinYear t)"

definition DateFromTime :: "int \<Rightarrow> int" where
  "DateFromTime t = DayWithinYear t - monthStart (InLeapYear t) (MonthFromTime t) + 1"

definition HourFromTime :: "int \<Rightarrow> int" where "HourFromTime t = (t div msPerHour) mod 24"
definition MinFromTime :: "int \<Rightarrow> int" where "MinFromTime t = (t div msPerMinute) mod 60"

definition MakeDay :: "int \<Rightarrow> int \<Rightarrow> int \<Rightarrow> int" where
  "MakeDay yr m dt =
     (let ym = yr + m div 12; mn = m mod 12 in
      DayFromYear ym + monthStart (leapFlag ym) mn + dt - 1)"

definition MakeDate :: "int \<Rightarrow> int \<Rightarrow> int" where
  "MakeDate dy tm = dy * msPerDay + tm"

text \<open>
  \<open>new Date(y, m, d)\<close>: local midnight of the day \<open>MakeDay\<close> finds. A year from 0
  to 99 is read as 1900 + year, as the constructor does.
\<close>

definition newDate :: "int \<Rightarrow> int \<Rightarrow> int \<Rightarrow> Date" where
  "newDate y m d = MakeDate (MakeDay (if 0 \<le> y \<and> y \<le> 99 then 1900 + y else y) m d) 0"

definition getFullYear :: "Date \<Rightarrow> int" where "getFullYear t = YearFromTime t"
definition getMonth :: "Date \<Rightarrow> int" where "getMonth t = MonthFromTime t"
definition getDate :: "Date \<Rightarrow> int" where "getDate t = DateFromTime t"
definition getHours :: "Date \<Rightarrow> int" where "getHours t = HourFromTime t"
definition getMinutes :: "Date \<Rightarrow> int" where "getMinutes t = MinFromTime t"

definition setDate :: "Date \<Rightarrow> int \<Rightarrow> Date" where
  "setDate t dt = MakeDate (MakeDay (YearFromTime t) (MonthFromTime t) dt) (TimeWithinDay t)"

text \<open>
  The number of days of month \<open>m\<close> (0 = January) of year \<open>y\<close> in the Gregorian
  calendar, by the leap-year rule.
\<close>

definition daysInMonth :: "int \<Rightarrow> int \<Rightarrow> int" where
  "daysInMonth y m =
     (if m = 1 then (if y mod 4 = 0 \<and> (y mod 100 \<noteq> 0 \<or> y mod 400 = 0) then 29 else 28)
      else if m = 3 \<or> m = 5 \<or> m = 8 \<or> m = 10 then 30 else 31)"

lemmas dateEval = getFullYear_def getMonth_def getDate_def getHours_def getMinutes_def
  YearFromTime_def YearFromDay_def MonthFromTime_def monthOfDay_def DateFromTime_def DayWithinYear_def
  InLeapYear_def leapFlag_def DaysInYear_def DayFromYear_def monthStart_def Day_def
  msPerDay_def msPerHour_def msPerMinute_def HourFromTime_def MinFromTime_def
  MakeDay_def MakeDate_def newDate_def setDate_def TimeWithinDay_def Let_def



lemma Day_MakeDate: "0 \<le> tm \<Longrightarrow> tm < msPerDay \<Longrightarrow> Day (MakeDate dy tm) = dy"
  by (simp add: Day_def MakeDate_def msPerDay_def div_pos_pos_trivial)

lemma leap_year_length: "DaysInYear y = 365 + leapFlag y"
  by (simp add: leapFlag_def DaysInYear_def)

lemma leapFlag_cases: "leapFlag y = 0 \<or> leapFlag y = 1"
  by (simp add: leapFlag_def)

lemma month_cases:
  fixes m :: int
  assumes "0 \<le> m" "m < 12"
  shows "m = 0 \<or> m = 1 \<or> m = 2 \<or> m = 3 \<or> m = 4 \<or> m = 5 \<or> m = 6 \<or> m = 7 \<or> m = 8 \<or> m = 9
         \<or> m = 10 \<or> m = 11"
  using assms by arith

lemma daysInMonth_leapFlag:
  "daysInMonth y m = (if m = 1 then 28 + leapFlag y else if m = 3 \<or> m = 5 \<or> m = 8 \<or> m = 10 then 30 else 31)"
  by (auto simp: daysInMonth_def leapFlag_def DaysInYear_def)


definition monthLength :: "int \<Rightarrow> int \<Rightarrow> int" where
  "monthLength L m = (if m = 1 then 28 + L else if m = 3 \<or> m = 5 \<or> m = 8 \<or> m = 10 then 30 else 31)"

lemma monthOfDay_monthStart:
  assumes L: "L = 0 \<or> L = 1" and m: "0 \<le> m" "m < 12" and d: "1 \<le> d" "d \<le> monthLength L m"
  shows "monthOfDay L (monthStart L m + d - 1) = m"
  using month_cases[OF m] L d
  by (elim disjE) (simp_all add: monthOfDay_def monthStart_def monthLength_def)

lemma monthStart_bounds:
  assumes L: "L = 0 \<or> L = 1" and m: "0 \<le> m" "m < 12" and d: "1 \<le> d" "d \<le> monthLength L m"
  shows "0 \<le> monthStart L m + d - 1 \<and> monthStart L m + d - 1 < 365 + L"
  using month_cases[OF m] L d
  by (elim disjE) (simp_all add: monthStart_def monthLength_def)

lemma daysInMonth_monthLength: "daysInMonth y m = monthLength (leapFlag y) m"
  by (auto simp: daysInMonth_def monthLength_def leapFlag_def DaysInYear_def)

lemma valid_date_fields:
  assumes m: "0 \<le> m" "m < 12" and d: "1 \<le> d" "d \<le> daysInMonth y m"
    and tm: "0 \<le> tm" "tm < msPerDay"
  defines "t \<equiv> MakeDate (MakeDay y m d) tm"
  shows "YearFromTime t = y" and "MonthFromTime t = m" and "DateFromTime t = d"
    and "Day t = DayFromYear y + monthStart (leapFlag y) m + d - 1"
proof -
  have md: "MakeDay y m d = DayFromYear y + monthStart (leapFlag y) m + d - 1"
    using m by (simp add: MakeDay_def div_pos_pos_trivial mod_pos_pos_trivial)
  show dy: "Day t = DayFromYear y + monthStart (leapFlag y) m + d - 1"
    using tm by (simp add: t_def Day_MakeDate md)
  have d': "d \<le> monthLength (leapFlag y) m" using d by (simp add: daysInMonth_monthLength)
  note w = monthStart_bounds[OF leapFlag_cases m d(1) d']
  have "DayFromYear y \<le> Day t \<and> Day t < DayFromYear (y + 1)"
    using w by (simp add: dy DayFromYear_Suc leap_year_length)
  then show yr: "YearFromTime t = y"
    by (simp add: YearFromTime_def YearFromDay_iff)
  have dw: "DayWithinYear t = monthStart (leapFlag y) m + d - 1"
    by (simp add: DayWithinYear_def yr dy)
  show mo: "MonthFromTime t = m"
    by (simp add: MonthFromTime_def dw InLeapYear_def yr monthOfDay_monthStart[OF leapFlag_cases m d(1) d'])
  show "DateFromTime t = d"
    by (simp add: DateFromTime_def dw mo InLeapYear_def yr)
qed

section \<open>Auto-safe rollover\<close>

definition AUTO_SAFE_HOUR :: int where "AUTO_SAFE_HOUR = 16"

text \<open>
  \<open>applyAutoSafe\<close>, lines 151-186. The two variables the loops update: \<open>next\<close>
  (here \<open>nextCal\<close>), the lazily made copy, and \<open>changed\<close>.
\<close>

record autoSafeState =
  nextCal :: "MonthlyData list option"
  changed :: bool

text \<open>\<open>ensureNext\<close>, lines 157-160: the copy is made once, at the first change.\<close>

definition ensureNext :: "MonthlyData list \<Rightarrow> autoSafeState \<Rightarrow> autoSafeState" where
  "ensureNext prev st =
     (case nextCal st of None \<Rightarrow> st\<lparr>nextCal := Some (copyCalendar prev)\<rparr> | Some nxt \<Rightarrow> st)"

text \<open>\<open>ensureNext()[m].days[i].status = 'safe'; changed = true\<close>, lines 172-174 and 178-180.\<close>

definition markSafe :: "nat \<Rightarrow> nat \<Rightarrow> MonthlyData list \<Rightarrow> MonthlyData list" where
  "markSafe m i nxt =
     nxt[m := (nxt ! m)\<lparr>days := (days (nxt ! m))[i := (days (nxt ! m) ! i)\<lparr>status := Some Safe\<rparr>]\<rparr>]"

definition setSafe :: "MonthlyData list \<Rightarrow> nat \<Rightarrow> nat \<Rightarrow> autoSafeState \<Rightarrow> autoSafeState" where
  "setSafe prev m i st =
     (let st' = ensureNext prev st in
      st'\<lparr>nextCal := map_option (markSafe m i) (nextCal st'), changed := True\<rparr>)"

text \<open>Lines 153 and 154.\<close>

definition todayStart :: "Date \<Rightarrow> int \<Rightarrow> Date" where
  "todayStart now yr = newDate yr (getMonth now) (getDate now)"

definition afterCutoff :: "Date \<Rightarrow> bool" where
  "afterCutoff now =
     (getHours now > AUTO_SAFE_HOUR \<or> (getHours now = AUTO_SAFE_HOUR \<and> getMinutes now \<ge> 0))"

text \<open>The body of the inner loop, lines 168-181, for day index \<open>i\<close> of month \<open>m\<close>.\<close>

definition dayStep :: "MonthlyData list \<Rightarrow> Date \<Rightarrow> int \<Rightarrow> nat \<Rightarrow> nat \<Rightarrow> autoSafeState \<Rightarrow> autoSafeState" where
  "dayStep prev now yr m i st =
     (let dd = days (prev ! m) ! i in
      if status dd \<noteq> None then st
      else if newDate yr (int m) (day dd) < todayStart now yr then setSafe prev m i st
      else if afterCutoff now \<and> int m = getMonth now \<and> day dd = getDate now
        then setSafe prev m i st
      else st)"

text \<open>The body of the outer loop, lines 165-182; \<open>if (!month) continue\<close> is the \<open>else\<close>.\<close>

definition monthStep :: "MonthlyData list \<Rightarrow> Date \<Rightarrow> int \<Rightarrow> nat \<Rightarrow> autoSafeState \<Rightarrow> autoSafeState" where
  "monthStep prev now yr m st =
     (if m < length prev
      then fold (dayStep prev now yr m) [0..<length (days (prev ! m))] st
      else st)"

text \<open>
  What the function returns: the array it was given (\<open>prev\<close> itself, the same
  reference) or the new array \<open>next\<close>. \<open>applyAutoSafe\<close> is the calendar returned.
\<close>

datatype 'a returned = SameArray | NewArray 'a

definition applyAutoSafe_returned :: "MonthlyData list \<Rightarrow> Date \<Rightarrow> int \<Rightarrow> MonthlyData list returned" where
  "applyAutoSafe_returned prev now yr =
     (if getFullYear now \<noteq> yr then SameArray
      else
        (let st = fold (monthStep prev now yr) [0..<12] \<lparr>nextCal = None, changed = False\<rparr> in
         case nextCal st of
           Some nxt \<Rightarrow> if changed st then NewArray nxt else SameArray
         | None \<Rightarrow> SameArray))"

definition applyAutoSafe :: "MonthlyData list \<Rightarrow> Date \<Rightarrow> int \<Rightarrow> MonthlyData list" where
  "applyAutoSafe prev now yr =
     (case applyAutoSafe_returned prev now yr of SameArray \<Rightarrow> prev | NewArray nxt \<Rightarrow> nxt)"

subsection \<open>What the loops compute\<close>

text \<open>
  A day is due when it is unset and either its date is before the start of today or
  it is today and the cutoff hour has come. \<open>promote P\<close> sets the due days among
  the positions \<open>P\<close> to safe and leaves every other day as it is.
\<close>

definition due :: "Date \<Rightarrow> int \<Rightarrow> nat \<Rightarrow> DailyStatistic \<Rightarrow> bool" where
  "due now yr m dd =
     (status dd = None \<and>
      (newDate yr (int m) (day dd) < todayStart now yr
       \<or> (AUTO_SAFE_HOUR \<le> getHours now \<and> int m = getMonth now \<and> day dd = getDate now)))"

definition promote :: "(nat \<Rightarrow> nat \<Rightarrow> bool) \<Rightarrow> Date \<Rightarrow> int \<Rightarrow> MonthlyData list \<Rightarrow> MonthlyData list" where
  "promote P now yr prev =
     map (\<lambda>m. (prev ! m)\<lparr>days :=
            map (\<lambda>i. let dd = days (prev ! m) ! i in
                      if P m i \<and> due now yr m dd then dd\<lparr>status := Some Safe\<rparr> else dd)
                [0..<length (days (prev ! m))]\<rparr>)
         [0..<length prev]"

lemma afterCutoff_iff: "afterCutoff now \<longleftrightarrow> AUTO_SAFE_HOUR \<le> getHours now"
proof -
  have "0 \<le> getMinutes now" by (simp add: getMinutes_def MinFromTime_def)
  then show ?thesis by (auto simp: afterCutoff_def)
qed

lemma length_promote [simp]: "length (promote P now yr prev) = length prev"
  by (simp add: promote_def)

lemma nth_promote:
  "m < length prev \<Longrightarrow> promote P now yr prev ! m = (prev ! m)\<lparr>days :=
            map (\<lambda>i. let dd = days (prev ! m) ! i in
                      if P m i \<and> due now yr m dd then dd\<lparr>status := Some Safe\<rparr> else dd)
                [0..<length (days (prev ! m))]\<rparr>"
  by (simp add: promote_def)

lemma days_promote_length:
  "m < length prev \<Longrightarrow> length (days (promote P now yr prev ! m)) = length (days (prev ! m))"
  by (simp add: nth_promote)

lemma day_promote:
  "m < length prev \<Longrightarrow> i < length (days (prev ! m)) \<Longrightarrow>
   days (promote P now yr prev ! m) ! i =
     (if P m i \<and> due now yr m (days (prev ! m) ! i)
      then (days (prev ! m) ! i)\<lparr>status := Some Safe\<rparr> else days (prev ! m) ! i)"
  by (simp add: nth_promote Let_def)

lemma calendar_eqI:
  assumes "length a = length b"
    and "\<And>m. m < length b \<Longrightarrow> month (a ! m) = month (b ! m) \<and> year (a ! m) = year (b ! m)
           \<and> length (days (a ! m)) = length (days (b ! m))"
    and "\<And>m i. m < length b \<Longrightarrow> i < length (days (b ! m)) \<Longrightarrow> days (a ! m) ! i = days (b ! m) ! i"
  shows "a = (b :: MonthlyData list)"
proof (rule nth_equalityI)
  show "length a = length b" by fact
next
  fix m assume "m < length a"
  then have m: "m < length b" using assms(1) by simp
  have "days (a ! m) = days (b ! m)"
    using assms(2)[OF m] assms(3)[OF m] by (intro nth_equalityI) simp_all
  with assms(2)[OF m] show "a ! m = b ! m" by simp
qed

lemma promote_cong:
  assumes "\<And>m i. m < length prev \<Longrightarrow> i < length (days (prev ! m)) \<Longrightarrow> P m i = Q m i"
  shows "promote P now yr prev = promote Q now yr prev"
proof (rule calendar_eqI)
  show "length (promote P now yr prev) = length (promote Q now yr prev)" by simp
next
  fix m assume "m < length (promote Q now yr prev)"
  then show "month (promote P now yr prev ! m) = month (promote Q now yr prev ! m)
      \<and> year (promote P now yr prev ! m) = year (promote Q now yr prev ! m)
      \<and> length (days (promote P now yr prev ! m)) = length (days (promote Q now yr prev ! m))"
    by (simp add: nth_promote)
next
  fix m i assume "m < length (promote Q now yr prev)" "i < length (days (promote Q now yr prev ! m))"
  then have "m < length prev" "i < length (days (prev ! m))" by (simp_all add: days_promote_length)
  then show "days (promote P now yr prev ! m) ! i = days (promote Q now yr prev ! m) ! i"
    using assms[of m i] by (simp add: day_promote)
qed

lemma promote_none:
  assumes "\<And>m i. m < length prev \<Longrightarrow> i < length (days (prev ! m)) \<Longrightarrow>
      \<not> (P m i \<and> due now yr m (days (prev ! m) ! i))"
  shows "promote P now yr prev = prev"
proof (rule calendar_eqI)
  show "length (promote P now yr prev) = length prev" by simp
next
  fix m assume "m < length prev"
  then show "month (promote P now yr prev ! m) = month (prev ! m)
      \<and> year (promote P now yr prev ! m) = year (prev ! m)
      \<and> length (days (promote P now yr prev ! m)) = length (days (prev ! m))"
    by (simp add: nth_promote)
next
  fix m i assume "m < length prev" "i < length (days (prev ! m))"
  then show "days (promote P now yr prev ! m) ! i = days (prev ! m) ! i"
    using assms[of m i] by (auto simp: day_promote)
qed

lemma markSafe_promote:
  assumes m: "m < length prev" and i: "i < length (days (prev ! m))"
    and nP: "\<not> P m i" and du: "due now yr m (days (prev ! m) ! i)"
  shows "markSafe m i (promote P now yr prev) = promote (\<lambda>m' i'. P m' i' \<or> (m' = m \<and> i' = i)) now yr prev"
proof (rule calendar_eqI)
  show "length (markSafe m i (promote P now yr prev)) =
        length (promote (\<lambda>m' i'. P m' i' \<or> (m' = m \<and> i' = i)) now yr prev)"
    by (simp add: markSafe_def)
next
  fix m' assume "m' < length (promote (\<lambda>m' i'. P m' i' \<or> (m' = m \<and> i' = i)) now yr prev)"
  then have m': "m' < length prev" by simp
  show "month (markSafe m i (promote P now yr prev) ! m') = month (promote (\<lambda>m' i'. P m' i' \<or> (m' = m \<and> i' = i)) now yr prev ! m')
      \<and> year (markSafe m i (promote P now yr prev) ! m') = year (promote (\<lambda>m' i'. P m' i' \<or> (m' = m \<and> i' = i)) now yr prev ! m')
      \<and> length (days (markSafe m i (promote P now yr prev) ! m')) = length (days (promote (\<lambda>m' i'. P m' i' \<or> (m' = m \<and> i' = i)) now yr prev ! m'))"
    using m m' by (simp add: markSafe_def nth_list_update nth_promote)
next
  fix m' i' assume "m' < length (promote (\<lambda>m' i'. P m' i' \<or> (m' = m \<and> i' = i)) now yr prev)"
    and i'0: "i' < length (days (promote (\<lambda>m' i'. P m' i' \<or> (m' = m \<and> i' = i)) now yr prev ! m'))"
  then have m': "m' < length prev" by simp
  with i'0 have i': "i' < length (days (prev ! m'))" by (simp add: nth_promote)
  show "days (markSafe m i (promote P now yr prev) ! m') ! i' =
        days (promote (\<lambda>m' i'. P m' i' \<or> (m' = m \<and> i' = i)) now yr prev ! m') ! i'"
  proof (cases "m' = m")
    case True
    have "days (markSafe m i (promote P now yr prev) ! m) ! i' =
          ((days (promote P now yr prev ! m))[i := (days (promote P now yr prev ! m) ! i)\<lparr>status := Some Safe\<rparr>]) ! i'"
      using m by (simp add: markSafe_def)
    also have "\<dots> = (if i' = i then (days (promote P now yr prev ! m) ! i)\<lparr>status := Some Safe\<rparr>
                      else days (promote P now yr prev ! m) ! i')"
      using m i i' True by (simp add: nth_list_update days_promote_length)
    also have "\<dots> = days (promote (\<lambda>m' i'. P m' i' \<or> (m' = m \<and> i' = i)) now yr prev ! m) ! i'"
      using m i i' True nP du by (auto simp: day_promote)
    finally show ?thesis using True by simp
  next
    case False
    then show ?thesis using m m' i' by (simp add: markSafe_def day_promote)
  qed
qed


text \<open>The loop invariant: after the positions \<open>P\<close> have been visited.\<close>

definition anyDue :: "(nat \<Rightarrow> nat \<Rightarrow> bool) \<Rightarrow> MonthlyData list \<Rightarrow> Date \<Rightarrow> int \<Rightarrow> bool" where
  "anyDue P prev now yr =
     (\<exists>m i. m < length prev \<and> i < length (days (prev ! m)) \<and> P m i
            \<and> due now yr m (days (prev ! m) ! i))"

lemma anyDue_cong:
  assumes "\<And>m i. m < length prev \<Longrightarrow> i < length (days (prev ! m)) \<Longrightarrow> P m i = Q m i"
  shows "anyDue P prev now yr = anyDue Q prev now yr"
  unfolding anyDue_def using assms by blast

lemma anyDue_insert:
  assumes "m < length prev" "i < length (days (prev ! m))"
  shows "anyDue (\<lambda>m' i'. P m' i' \<or> (m' = m \<and> i' = i)) prev now yr
         = (anyDue P prev now yr \<or> due now yr m (days (prev ! m) ! i))"
  unfolding anyDue_def using assms by blast

lemma promote_not_anyDue: "\<not> anyDue P prev now yr \<Longrightarrow> promote P now yr prev = prev"
  by (rule promote_none) (auto simp: anyDue_def)

definition visited :: "(nat \<Rightarrow> nat \<Rightarrow> bool) \<Rightarrow> MonthlyData list \<Rightarrow> Date \<Rightarrow> int \<Rightarrow> autoSafeState \<Rightarrow> bool" where
  "visited P prev now yr st =
     (changed st = anyDue P prev now yr
      \<and> nextCal st = (if changed st then Some (promote P now yr prev) else None))"

lemma visited_cong:
  assumes "\<And>m i. m < length prev \<Longrightarrow> i < length (days (prev ! m)) \<Longrightarrow> P m i = Q m i"
    and "visited P prev now yr st"
  shows "visited Q prev now yr st"
  using assms(2) promote_cong[of prev P Q now yr, OF assms(1)] anyDue_cong[of prev P Q now yr, OF assms(1)]
  by (simp add: visited_def)

lemma dayStep_due:
  "dayStep prev now yr m i st =
     (if due now yr m (days (prev ! m) ! i) then setSafe prev m i st else st)"
  by (auto simp: dayStep_def due_def Let_def afterCutoff_iff)

lemma promote_insert_not_due:
  assumes "\<not> due now yr m (days (prev ! m) ! i)"
  shows "promote (\<lambda>m' i'. P m' i' \<or> (m' = m \<and> i' = i)) now yr prev = promote P now yr prev"
proof (rule calendar_eqI)
  show "length (promote (\<lambda>m' i'. P m' i' \<or> (m' = m \<and> i' = i)) now yr prev) = length (promote P now yr prev)"
    by simp
next
  fix k assume "k < length (promote P now yr prev)"
  then show "month (promote (\<lambda>m' i'. P m' i' \<or> (m' = m \<and> i' = i)) now yr prev ! k) = month (promote P now yr prev ! k)
    \<and> year (promote (\<lambda>m' i'. P m' i' \<or> (m' = m \<and> i' = i)) now yr prev ! k) = year (promote P now yr prev ! k)
    \<and> length (days (promote (\<lambda>m' i'. P m' i' \<or> (m' = m \<and> i' = i)) now yr prev ! k)) = length (days (promote P now yr prev ! k))"
    by (simp add: nth_promote)
next
  fix k j assume "k < length (promote P now yr prev)" "j < length (days (promote P now yr prev ! k))"
  then have "k < length prev" "j < length (days (prev ! k))" by (simp_all add: days_promote_length)
  then show "days (promote (\<lambda>m' i'. P m' i' \<or> (m' = m \<and> i' = i)) now yr prev ! k) ! j
      = days (promote P now yr prev ! k) ! j"
    using assms by (auto simp: day_promote)
qed

lemma visited_dayStep:
  assumes m: "m < length prev" and i: "i < length (days (prev ! m))"
    and nP: "\<not> P m i" and v: "visited P prev now yr st"
  shows "visited (\<lambda>m' i'. P m' i' \<or> (m' = m \<and> i' = i)) prev now yr (dayStep prev now yr m i st)"
proof (cases "due now yr m (days (prev ! m) ! i)")
  case True
  have none: "\<not> changed st \<Longrightarrow> promote P now yr prev = prev"
    using v by (intro promote_not_anyDue) (simp add: visited_def)
  have nx: "nextCal (ensureNext prev st) = Some (promote P now yr prev)"
    using v none by (auto simp: visited_def ensureNext_def copyCalendar_id split: option.splits)
  have ms: "markSafe m i (promote P now yr prev)
      = promote (\<lambda>m' i'. P m' i' \<or> (m' = m \<and> i' = i)) now yr prev"
    using m i nP True by (rule markSafe_promote)
  have "nextCal (dayStep prev now yr m i st)
      = Some (promote (\<lambda>m' i'. P m' i' \<or> (m' = m \<and> i' = i)) now yr prev)"
    using True by (simp add: dayStep_due setSafe_def Let_def nx ms)
  moreover have "changed (dayStep prev now yr m i st)"
    using True by (simp add: dayStep_due setSafe_def Let_def)
  ultimately show ?thesis using True by (simp add: visited_def anyDue_insert[OF m i])
next
  case False
  then show ?thesis
    using v by (simp add: visited_def dayStep_due anyDue_insert[OF m i] promote_insert_not_due)
qed

lemma visited_days:
  assumes m: "m < length prev" and n: "n \<le> length (days (prev ! m))"
    and v: "visited (\<lambda>m' i'. m' < m) prev now yr st"
  shows "visited (\<lambda>m' i'. m' < m \<or> (m' = m \<and> i' < n)) prev now yr
           (fold (dayStep prev now yr m) [0..<n] st)"
  using n
proof (induction n)
  case 0
  from v show ?case by simp
next
  case (Suc n)
  then have n: "n < length (days (prev ! m))" and
    ih: "visited (\<lambda>m' i'. m' < m \<or> (m' = m \<and> i' < n)) prev now yr (fold (dayStep prev now yr m) [0..<n] st)"
    by simp_all
  have "visited (\<lambda>m' i'. (m' < m \<or> (m' = m \<and> i' < n)) \<or> (m' = m \<and> i' = n)) prev now yr
          (dayStep prev now yr m n (fold (dayStep prev now yr m) [0..<n] st))"
    by (rule visited_dayStep[OF m n _ ih]) simp
  then have "visited (\<lambda>m' i'. m' < m \<or> (m' = m \<and> i' < Suc n)) prev now yr
          (dayStep prev now yr m n (fold (dayStep prev now yr m) [0..<n] st))"
    by (rule visited_cong[rotated]) (auto simp: less_Suc_eq)
  then show ?case by simp
qed

lemma visited_monthStep:
  assumes v: "visited (\<lambda>m' i'. m' < m) prev now yr st"
  shows "visited (\<lambda>m' i'. m' < Suc m) prev now yr (monthStep prev now yr m st)"
proof (cases "m < length prev")
  case True
  have "visited (\<lambda>m' i'. m' < m \<or> (m' = m \<and> i' < length (days (prev ! m)))) prev now yr
           (fold (dayStep prev now yr m) [0..<length (days (prev ! m))] st)"
    by (rule visited_days[OF True _ v]) simp
  then have "visited (\<lambda>m' i'. m' < Suc m) prev now yr
           (fold (dayStep prev now yr m) [0..<length (days (prev ! m))] st)"
    by (rule visited_cong[rotated]) (auto simp: less_Suc_eq)
  then show ?thesis using True by (simp add: monthStep_def)
next
  case False
  have "visited (\<lambda>m' i'. m' < Suc m) prev now yr st"
    using v by (rule visited_cong[rotated]) (use False in \<open>auto simp: less_Suc_eq\<close>)
  then show ?thesis using False by (simp add: monthStep_def)
qed

lemma visited_months:
  "visited (\<lambda>m' i'. m' < n) prev now yr
     (fold (monthStep prev now yr) [0..<n] \<lparr>nextCal = None, changed = False\<rparr>)"
proof (induction n)
  case 0
  show ?case by (simp add: visited_def anyDue_def)
next
  case (Suc n)
  from visited_monthStep[OF Suc] show ?case by simp
qed


definition inYear :: "nat \<Rightarrow> nat \<Rightarrow> bool" where
  "inYear m i = (m < 12)"

lemma applyAutoSafe_returned_eq:
  "applyAutoSafe_returned prev now yr =
     (if getFullYear now = yr \<and> anyDue inYear prev now yr
      then NewArray (promote inYear now yr prev) else SameArray)"
proof -
  have "visited inYear prev now yr
     (fold (monthStep prev now yr) [0..<12] \<lparr>nextCal = None, changed = False\<rparr>)"
    using visited_months[of 12 prev now yr] by (simp add: inYear_def[abs_def])
  then show ?thesis
    by (auto simp: applyAutoSafe_returned_def visited_def Let_def split: option.splits)
qed

lemma applyAutoSafe_eq:
  "applyAutoSafe prev now yr = (if getFullYear now = yr then promote inYear now yr prev else prev)"
  by (simp add: applyAutoSafe_def applyAutoSafe_returned_eq promote_not_anyDue)

lemma not_due_after_promote:
  assumes "m < length prev" "i < length (days (prev ! m))" "P m i"
  shows "\<not> due now yr m (days (promote P now yr prev ! m) ! i)"
  using assms by (auto simp: day_promote due_def)

lemma not_anyDue_promote: "\<not> anyDue P (promote P now yr prev) now yr"
  by (auto simp: anyDue_def days_promote_length not_due_after_promote)

lemma promote_idem: "promote P now yr (promote P now yr prev) = promote P now yr prev"
  by (rule promote_not_anyDue) (rule not_anyDue_promote)

lemma anyDue_changes:
  assumes "anyDue P prev now yr"
  shows "promote P now yr prev \<noteq> prev"
proof -
  from assms obtain m i where mi: "m < length prev" "i < length (days (prev ! m))" "P m i"
    "due now yr m (days (prev ! m) ! i)"
    by (auto simp: anyDue_def)
  then have "status (days (promote P now yr prev ! m) ! i) = Some Safe"
    by (simp add: day_promote)
  moreover have "status (days (prev ! m) ! i) = None"
    using mi(4) by (simp add: due_def)
  ultimately show ?thesis by auto
qed

section \<open>Creating a year\<close>

text \<open>
  \<open>createYearData\<close>, lines 138-143: twelve months, month \<open>m\<close> with
  \<open>new Date(year, m + 1, 0).getDate()\<close> days numbered from 1, all unset.
\<close>

definition createYearData :: "int \<Rightarrow> MonthlyData list" where
  "createYearData yr =
     map (\<lambda>m. \<lparr>month = int m, year = yr,
               days = map (\<lambda>i. \<lparr>day = int i + 1, status = None\<rparr>)
                          [0..<nat (getDate (newDate yr (int m + 1) 0))]\<rparr>)
         [0..<12]"

subsection \<open>Reading back the fields of a date\<close>

lemma monthOfDay_range: "0 \<le> monthOfDay L d \<and> monthOfDay L d < 12"
  by (simp add: monthOfDay_def)

lemma MonthFromTime_range: "0 \<le> MonthFromTime t \<and> MonthFromTime t < 12"
  by (simp add: MonthFromTime_def monthOfDay_range)

lemma MakeDay_fields:
  "MakeDay (YearFromTime t) (MonthFromTime t) (DateFromTime t + k) = Day t + k"
  using MonthFromTime_range[of t]
  by (simp add: MakeDay_def div_pos_pos_trivial mod_pos_pos_trivial DateFromTime_def
      DayWithinYear_def InLeapYear_def)

lemma time_split: "Day t * msPerDay + TimeWithinDay t = t"
  by (simp add: Day_def TimeWithinDay_def)

lemma setDate_previous: "setDate t (getDate t - 1) = t - msPerDay"
proof -
  have "MakeDay (YearFromTime t) (MonthFromTime t) (DateFromTime t - 1) = Day t - 1"
    using MakeDay_fields[of t "-1"] by simp
  then have "setDate t (getDate t - 1) = (Day t - 1) * msPerDay + TimeWithinDay t"
    by (simp add: setDate_def getDate_def MakeDate_def)
  also have "\<dots> = t - msPerDay"
    using time_split[of t] by (simp add: algebra_simps)
  finally show ?thesis .
qed

lemma newDate_today:
  assumes "\<not> (0 \<le> getFullYear now \<and> getFullYear now \<le> 99)"
  shows "newDate (getFullYear now) (getMonth now) (getDate now) = Day now * msPerDay"
  using assms MakeDay_fields[of now 0]
  by (auto simp: newDate_def getFullYear_def getMonth_def getDate_def MakeDate_def)

lemma monthStart_next:
  assumes "0 \<le> m" "m < 11"
  shows "monthStart L (m + 1) = monthStart L m + monthLength L m"
proof -
  from assms have "m < 12" by simp
  from month_cases[OF assms(1) this] assms(2) show ?thesis
    by (elim disjE) (simp_all add: monthStart_def monthLength_def)
qed

lemma MakeDay_day_zero:
  assumes m: "0 \<le> m" "m < 12"
  shows "MakeDay y (m + 1) 0 = MakeDay y m (daysInMonth y m)"
proof (cases "m = 11")
  case True
  have "MakeDay y 12 0 = DayFromYear (y + 1) - 1"
    by (simp add: MakeDay_def monthStart_def)
  also have "\<dots> = DayFromYear y + 365 + leapFlag y - 1"
    by (simp add: DayFromYear_Suc leap_year_length)
  also have "\<dots> = MakeDay y 11 (daysInMonth y 11)"
    by (simp add: MakeDay_def monthStart_def daysInMonth_monthLength monthLength_def)
  finally show ?thesis using True by simp
next
  case False
  with m have m': "m < 11" by simp
  have a: "(m + 1) div 12 = 0" "(m + 1) mod 12 = m + 1" "m div 12 = 0" "m mod 12 = m"
    using m m' by (simp_all add: div_pos_pos_trivial mod_pos_pos_trivial)
  show ?thesis
    by (simp add: MakeDay_def a monthStart_next[OF m(1) m'] daysInMonth_monthLength)
qed

text \<open>The year \<open>new Date(y, ...)\<close> works with.\<close>

definition constructorYear :: "int \<Rightarrow> int" where
  "constructorYear y = (if 0 \<le> y \<and> y \<le> 99 then 1900 + y else y)"

lemma daysInMonth_pos: "1 \<le> daysInMonth y m"
  by (simp add: daysInMonth_def)

lemma getDate_day_zero:
  assumes m: "0 \<le> m" "m < 12"
  shows "getDate (newDate yr (m + 1) 0) = daysInMonth (constructorYear yr) m"
proof -
  let ?y = "constructorYear yr"
  have "newDate yr (m + 1) 0 = MakeDate (MakeDay ?y m (daysInMonth ?y m)) 0"
    by (simp add: newDate_def constructorYear_def MakeDay_day_zero[OF m])
  moreover have "DateFromTime (MakeDate (MakeDay ?y m (daysInMonth ?y m)) 0) = daysInMonth ?y m"
    by (rule valid_date_fields(3)[OF m daysInMonth_pos]) (simp_all add: msPerDay_def)
  ultimately show ?thesis by (simp add: getDate_def)
qed

lemma daysInMonth_constructorYear:
  assumes "yr \<noteq> 0"
  shows "daysInMonth (constructorYear yr) m = daysInMonth yr m"
proof (cases "0 \<le> yr \<and> yr \<le> 99")
  case True
  with assms have r: "1 \<le> yr" "yr \<le> 99" by simp_all
  have a: "(1900 + yr) mod 4 = yr mod 4"
    by presburger
  have b: "yr mod 100 \<noteq> 0" "(1900 + yr) mod 100 \<noteq> 0"
    using r by presburger+
  show ?thesis using True by (simp add: constructorYear_def daysInMonth_def a b)
next
  case False
  then show ?thesis by (auto simp: constructorYear_def)
qed

lemma createYearData_nth:
  assumes "m < 12"
  shows "createYearData yr ! m =
    \<lparr>month = int m, year = yr,
     days = map (\<lambda>i. \<lparr>day = int i + 1, status = None\<rparr>)
              [0..<nat (daysInMonth (constructorYear yr) (int m))]\<rparr>"
  using assms by (simp add: createYearData_def getDate_day_zero)

subsection \<open>The claims about \<open>applyAutoSafe\<close>\<close>

text \<open>Two instants of the spec's example: 15 March 2026, 10:00 and 16:00.\<close>

definition march15_1000 :: Date where "march15_1000 = newDate 2026 2 15 + 10 * msPerHour"
definition march15_1600 :: Date where "march15_1600 = newDate 2026 2 15 + 16 * msPerHour"

lemma march15_1000_fields:
  "getFullYear march15_1000 = 2026" "getMonth march15_1000 = 2" "getDate march15_1000 = 15"
  "getHours march15_1000 = 10"
  by (code_simp, code_simp, code_simp, code_simp)

lemma march15_1600_fields:
  "getFullYear march15_1600 = 2026" "getMonth march15_1600 = 2" "getDate march15_1600 = 15"
  "getHours march15_1600 = 16"
  by (code_simp, code_simp, code_simp, code_simp)

lemma length_createYearData: "length (createYearData yr) = 12"
  by (simp add: createYearData_def)

lemma march_2026:
  "length (days (createYearData 2026 ! 2)) = 31"
  "days (createYearData 2026 ! 2) ! 13 = \<lparr>day = 14, status = None\<rparr>"
  "days (createYearData 2026 ! 2) ! 14 = \<lparr>day = 15, status = None\<rparr>"
  "days (createYearData 2026 ! 2) ! 15 = \<lparr>day = 16, status = None\<rparr>"
  by (simp_all add: createYearData_nth daysInMonth_def constructorYear_def)

lemma march_order:
  "newDate 2026 2 14 < newDate 2026 2 15" "\<not> newDate 2026 2 15 < newDate 2026 2 15"
  "\<not> newDate 2026 2 16 < newDate 2026 2 15"
  by (code_simp, code_simp, code_simp)

lemma applyAutoSafe_day:
  assumes "m < length prev" "i < length (days (prev ! m))"
  shows "days (applyAutoSafe prev now yr ! m) ! i =
     (if getFullYear now = yr \<and> m < 12 \<and> due now yr m (days (prev ! m) ! i)
      then (days (prev ! m) ! i)\<lparr>status := Some Safe\<rparr> else days (prev ! m) ! i)"
  using assms by (simp add: applyAutoSafe_eq day_promote inYear_def)

lemma march14_backfilled:
  "days (applyAutoSafe (createYearData 2026) march15_1000 2026 ! 2) ! 13
     = \<lparr>day = 14, status = Some Safe\<rparr>"
  by (simp add: applyAutoSafe_day length_createYearData march_2026 march15_1000_fields
      march_order due_def todayStart_def)

lemma march15_1000_changes:
  "applyAutoSafe (createYearData 2026) march15_1000 2026 \<noteq> createYearData 2026"
proof
  assume "applyAutoSafe (createYearData 2026) march15_1000 2026 = createYearData 2026"
  then have "days (applyAutoSafe (createYearData 2026) march15_1000 2026 ! 2) ! 13
       = days (createYearData 2026 ! 2) ! 13" by simp
  then show False by (simp add: march14_backfilled march_2026)
qed

text \<open>
  Claim C3. \<open>applyAutoSafe\<close> keeps the shape of the calendar (the months, their
  \<open>month\<close> and \<open>year\<close>, the number and the numbers of their days), and the day at
  index \<open>i\<close> of month \<open>m\<close> comes out safe exactly when \<open>now\<close> is in year \<open>yr\<close>,
  the day was unset, and its date \<open>new Date(yr, m, day)\<close> is before now's date
  \<open>new Date(yr, now.getMonth(), now.getDate())\<close> or it is today (month and day
  number are now's) and now's hour is at or after 16; every other day is returned as
  it was. When now's year is not \<open>yr\<close> nothing changes. The loop visits the month
  indexes 0 to 11, all the months a year calendar has. For the days of a calendar of
  the year, "before now's date" is the order of month and day number
  (\<open>before_today_iff\<close> below).
\<close>

theorem applyAutoSafe_promotes_due_days:
  "(getFullYear now \<noteq> yr \<longrightarrow> applyAutoSafe prev now yr = prev)
   \<and> length (applyAutoSafe prev now yr) = length prev
   \<and> (\<forall>m < length prev.
         month (applyAutoSafe prev now yr ! m) = month (prev ! m)
       \<and> year (applyAutoSafe prev now yr ! m) = year (prev ! m)
       \<and> length (days (applyAutoSafe prev now yr ! m)) = length (days (prev ! m))
       \<and> (\<forall>i < length (days (prev ! m)).
            days (applyAutoSafe prev now yr ! m) ! i =
              (if getFullYear now = yr \<and> m < 12 \<and> status (days (prev ! m) ! i) = None
                  \<and> (newDate yr (int m) (day (days (prev ! m) ! i))
                        < newDate yr (getMonth now) (getDate now)
                      \<or> (AUTO_SAFE_HOUR \<le> getHours now \<and> int m = getMonth now
                          \<and> day (days (prev ! m) ! i) = getDate now))
               then (days (prev ! m) ! i)\<lparr>status := Some Safe\<rparr>
               else days (prev ! m) ! i)))"
proof (cases "getFullYear now = yr")
  case True
  then have eq: "applyAutoSafe prev now yr = promote inYear now yr prev"
    by (simp add: applyAutoSafe_eq)
  have hd: "\<And>m. m < length prev \<Longrightarrow> month (promote inYear now yr prev ! m) = month (prev ! m)
      \<and> year (promote inYear now yr prev ! m) = year (prev ! m)"
    by (simp add: nth_promote)
  show ?thesis
    unfolding eq using True
    by (intro conjI allI impI)
       (simp_all add: hd days_promote_length day_promote due_def todayStart_def inYear_def)
next
  case False
  then show ?thesis by (simp add: applyAutoSafe_eq)
qed

theorem applyAutoSafe_promotes_due_days_witness:
  "days (applyAutoSafe (createYearData 2026) march15_1000 2026 ! 2) ! 13 = \<lparr>day = 14, status = Some Safe\<rparr>
   \<and> days (applyAutoSafe (createYearData 2026) march15_1000 2026 ! 2) ! 14 = \<lparr>day = 15, status = None\<rparr>
   \<and> days (applyAutoSafe (createYearData 2026) march15_1000 2026 ! 2) ! 15 = \<lparr>day = 16, status = None\<rparr>
   \<and> days (applyAutoSafe (createYearData 2026) march15_1600 2026 ! 2) ! 14 = \<lparr>day = 15, status = Some Safe\<rparr>
   \<and> applyAutoSafe (createYearData 2025) march15_1000 2025 = createYearData 2025"
proof -
  note a = applyAutoSafe_promotes_due_days [where prev = "createYearData 2026"
      and now = march15_1000 and yr = 2026,
      THEN conjunct2, THEN conjunct2, rule_format, of 2,
      THEN conjunct2, THEN conjunct2, THEN conjunct2, rule_format]
  note b = applyAutoSafe_promotes_due_days [where prev = "createYearData 2026"
      and now = march15_1600 and yr = 2026,
      THEN conjunct2, THEN conjunct2, rule_format, of 2,
      THEN conjunct2, THEN conjunct2, THEN conjunct2, rule_format]
  have "days (applyAutoSafe (createYearData 2026) march15_1000 2026 ! 2) ! 13 = \<lparr>day = 14, status = Some Safe\<rparr>"
    using a[of 13] by (simp add: length_createYearData march_2026 march15_1000_fields march_order AUTO_SAFE_HOUR_def)
  moreover have "days (applyAutoSafe (createYearData 2026) march15_1000 2026 ! 2) ! 14 = \<lparr>day = 15, status = None\<rparr>"
    using a[of 14] by (simp add: length_createYearData march_2026 march15_1000_fields march_order AUTO_SAFE_HOUR_def)
  moreover have "days (applyAutoSafe (createYearData 2026) march15_1000 2026 ! 2) ! 15 = \<lparr>day = 16, status = None\<rparr>"
    using a[of 15] by (simp add: length_createYearData march_2026 march15_1000_fields march_order AUTO_SAFE_HOUR_def)
  moreover have "days (applyAutoSafe (createYearData 2026) march15_1600 2026 ! 2) ! 14 = \<lparr>day = 15, status = Some Safe\<rparr>"
    using b[of 14] by (simp add: length_createYearData march_2026 march15_1600_fields march_order AUTO_SAFE_HOUR_def)
  moreover have "applyAutoSafe (createYearData 2025) march15_1000 2025 = createYearData 2025"
    using applyAutoSafe_promotes_due_days [where prev = "createYearData 2025"
      and now = march15_1000 and yr = 2025, THEN conjunct1]
    by (simp add: march15_1000_fields)
  ultimately show ?thesis by simp
qed

text \<open>
  Claim C4. Applying \<open>applyAutoSafe\<close> to its own result with the same \<open>now\<close> gives
  that result again, and gives it as the very array it was passed; and in general the
  array passed in is the one returned exactly when the calendar returned equals it,
  that is, when no status changed.
\<close>

theorem applyAutoSafe_idempotent:
  "applyAutoSafe (applyAutoSafe prev now yr) now yr = applyAutoSafe prev now yr
   \<and> applyAutoSafe_returned (applyAutoSafe prev now yr) now yr = SameArray
   \<and> (applyAutoSafe_returned prev now yr = SameArray) = (applyAutoSafe prev now yr = prev)"
proof -
  have a: "applyAutoSafe (applyAutoSafe prev now yr) now yr = applyAutoSafe prev now yr"
    by (simp add: applyAutoSafe_eq promote_idem)
  have b: "applyAutoSafe_returned (applyAutoSafe prev now yr) now yr = SameArray"
    by (simp add: applyAutoSafe_eq applyAutoSafe_returned_eq not_anyDue_promote)
  have c: "(applyAutoSafe_returned prev now yr = SameArray) = (applyAutoSafe prev now yr = prev)"
    using anyDue_changes[of inYear prev now yr] promote_not_anyDue[of inYear prev now yr]
    by (auto simp: applyAutoSafe_eq applyAutoSafe_returned_eq)
  from a b c show ?thesis by simp
qed

theorem applyAutoSafe_idempotent_witness:
  "applyAutoSafe_returned (applyAutoSafe (createYearData 2026) march15_1000 2026) march15_1000 2026 = SameArray
   \<and> applyAutoSafe_returned (createYearData 2026) march15_1000 2026 \<noteq> SameArray"
  using applyAutoSafe_idempotent [of "createYearData 2026" march15_1000 2026] march15_1000_changes
  by simp

section \<open>Safety streak\<close>

lemma Day_times: "Day (n * msPerDay) = n"
  by (simp add: Day_def msPerDay_def)

lemma Day_minus_day: "Day (t - msPerDay) = Day t - 1"
proof -
  have "t - msPerDay = t + (- 1) * msPerDay" by simp
  then have "(t - msPerDay) div msPerDay = t div msPerDay + (- 1)"
    by (simp only: div_mult_self1[of msPerDay t "- 1"] msPerDay_def)
  then show ?thesis by (simp add: Day_def)
qed

lemma getFullYear_iff:
  "getFullYear t = y \<longleftrightarrow> DayFromYear y \<le> Day t \<and> Day t < DayFromYear (y + 1)"
  by (simp add: getFullYear_def YearFromTime_def YearFromDay_iff)

text \<open>
  The loop of lines 567-579, from the date \<open>dt\<close> with \<open>streak\<close> days counted so
  far. It goes on only while the date stays in year \<open>y\<close>, which bounds it.
\<close>

function streakLoop :: "MonthlyData list \<Rightarrow> int \<Rightarrow> Date \<Rightarrow> nat \<Rightarrow> nat" where
  "streakLoop monthlyData y dt streak =
     (let m = getMonth dt; d = getDate dt; st = statusOrNull monthlyData m d in
      if st = Some Safe \<or> st = Some NearMiss then
        (let dt' = setDate dt (getDate dt - 1) in
         if getFullYear dt' \<noteq> y then streak + 1
         else streakLoop monthlyData y dt' (streak + 1))
      else streak)"
  by pat_completeness auto
termination
proof (relation "measure (\<lambda>(monthlyData, y, dt, streak). nat (Day dt - DayFromYear y))")
  show "wf (measure (\<lambda>(monthlyData, y, dt, streak). nat (Day dt - DayFromYear y)))"
    by simp
next
  fix monthlyData :: "MonthlyData list" and y dt :: int and streak :: nat and m d st dt'
  assume "dt' = setDate dt (getDate dt - 1)" and "\<not> getFullYear dt' \<noteq> y"
  then have "getFullYear (dt - msPerDay) = y" by (simp add: setDate_previous)
  then have "DayFromYear y \<le> Day dt - 1" by (simp add: getFullYear_iff Day_minus_day)
  then show "((monthlyData, y, dt', streak + 1), (monthlyData, y, dt, streak))
      \<in> measure (\<lambda>(monthlyData, y, dt, streak). nat (Day dt - DayFromYear y))"
    using \<open>dt' = setDate dt (getDate dt - 1)\<close> by (simp add: setDate_previous Day_minus_day)
qed

declare streakLoop.simps [simp del]

text \<open>\<open>safetyStreak\<close>, lines 551-581, with the clock reading \<open>nowDt\<close> as a parameter.\<close>

definition safetyStreak :: "MonthlyData list \<Rightarrow> Date \<Rightarrow> int \<Rightarrow> nat" where
  "safetyStreak monthlyData nowDt currentYear =
     (let y = getFullYear nowDt in
      if y \<noteq> currentYear then 0
      else
        (let todayM = getMonth nowDt;
             todayD = getDate nowDt;
             todayStatus = statusOrNull monthlyData todayM todayD;
             end = (if todayStatus = Some Safe \<or> todayStatus = Some NearMiss
                    then newDate y todayM todayD
                    else newDate y todayM (todayD - 1))
         in if getFullYear end \<noteq> y then 0 else streakLoop monthlyData y end 0))"

subsection \<open>The streak in the spec's words\<close>

text \<open>
  \<open>counted cal n\<close>: the status the calendar holds for the day with day number \<open>n\<close>
  (at its month and its day of the month) is safe or near miss. \<open>walkBack cal n k\<close>
  walks back from day \<open>n\<close> over at most \<open>k\<close> days and counts them up to the first
  that is not counted. \<open>computeStreak\<close> anchors at today or yesterday and walks back
  to the first day of the year at most.
\<close>

definition counted :: "MonthlyData list \<Rightarrow> int \<Rightarrow> bool" where
  "counted cal n =
     (let st = statusOrNull cal (MonthFromTime (n * msPerDay)) (DateFromTime (n * msPerDay))
      in st = Some Safe \<or> st = Some NearMiss)"

fun walkBack :: "MonthlyData list \<Rightarrow> int \<Rightarrow> nat \<Rightarrow> nat" where
  "walkBack cal n 0 = 0"
| "walkBack cal n (Suc k) = (if counted cal n then Suc (walkBack cal (n - 1) k) else 0)"

definition computeStreak :: "MonthlyData list \<Rightarrow> Date \<Rightarrow> int \<Rightarrow> nat" where
  "computeStreak cal now yr =
     (if getFullYear now \<noteq> yr then 0
      else
        (let today = Day now;
             anchor = (if counted cal today then today else today - 1)
         in walkBack cal anchor (nat (anchor - DayFromYear yr + 1))))"

lemma fields_of_day:
  "MonthFromTime t = MonthFromTime (Day t * msPerDay)"
  "DateFromTime t = DateFromTime (Day t * msPerDay)"
  by (simp_all add: MonthFromTime_def DateFromTime_def DayWithinYear_def InLeapYear_def
      YearFromTime_def Day_times)

lemma counted_Day:
  "counted cal (Day t) =
     (statusOrNull cal (getMonth t) (getDate t) = Some Safe
      \<or> statusOrNull cal (getMonth t) (getDate t) = Some NearMiss)"
  using fields_of_day[of t] by (simp add: counted_def getMonth_def getDate_def Let_def)

lemma streakLoop_walkBack:
  "getFullYear dt = y \<Longrightarrow>
   streakLoop cal y dt s = s + walkBack cal (Day dt) (nat (Day dt - DayFromYear y + 1))"
proof (induction cal y dt s rule: streakLoop.induct)
  case (1 cal y dt s)
  from "1.prems" have b: "DayFromYear y \<le> Day dt" "Day dt < DayFromYear (y + 1)"
    by (simp_all add: getFullYear_iff)
  then have k: "nat (Day dt - DayFromYear y + 1) = Suc (nat (Day dt - DayFromYear y))"
    by simp
  show ?case
  proof (cases "counted cal (Day dt)")
    case False
    then show ?thesis
      by (subst streakLoop.simps) (simp add: k counted_Day Let_def)
  next
    case True
    let ?dt' = "dt - msPerDay"
    show ?thesis
    proof (cases "getFullYear ?dt' = y")
      case False
      with b have "Day dt = DayFromYear y"
        by (simp add: getFullYear_iff Day_minus_day)
      then show ?thesis using True False
        by (subst streakLoop.simps) (simp add: k counted_Day[symmetric] Let_def setDate_previous)
    next
      case y': True
      then have b': "DayFromYear y \<le> Day dt - 1" by (simp add: getFullYear_iff Day_minus_day)
      have "streakLoop cal y ?dt' (s + 1)
          = s + 1 + walkBack cal (Day ?dt') (nat (Day ?dt' - DayFromYear y + 1))"
        using True y' by (intro "1.IH") (simp_all add: counted_Day setDate_previous)
      then show ?thesis using True y' b'
        by (subst streakLoop.simps)
           (simp add: k counted_Day[symmetric] Let_def setDate_previous Day_minus_day)
    qed
  qed
qed

lemma newDate_yesterday:
  assumes "\<not> (0 \<le> getFullYear now \<and> getFullYear now \<le> 99)"
  shows "newDate (getFullYear now) (getMonth now) (getDate now - 1) = (Day now - 1) * msPerDay"
  using assms MakeDay_fields[of now "- 1"]
  by (auto simp: newDate_def getFullYear_def getMonth_def getDate_def MakeDate_def)

text \<open>
  Claim C5. The streak is a natural number, 0 when now's year is not the calendar's.
  Otherwise the anchor is today when the status stored for today is safe or near miss
  and yesterday otherwise, and the streak is the number of days \<open>walkBack\<close> counts
  from the anchor: one day back at a time, each day whose status is safe or near miss
  counted, stopping without counting at the first day that is an accident or unset, and
  after 1 January of the year. The years 0 to 99 are left aside: \<open>new Date(y, ...)\<close>
  reads them as 1900 + y, the anchor then lies in another year and the streak is 0
  (\<open>safetyStreak_two_digit_year\<close> below); the clock of a running dashboard shows no
  such year.
\<close>

theorem safetyStreak_walks_back:
  assumes "\<not> (0 \<le> yr \<and> yr \<le> 99)"
  shows "safetyStreak cal now yr = computeStreak cal now yr"
proof (cases "getFullYear now = yr")
  case False
  then show ?thesis by (simp add: safetyStreak_def computeStreak_def)
next
  case True
  with assms have ny: "\<not> (0 \<le> getFullYear now \<and> getFullYear now \<le> 99)" by simp
  from True have b: "DayFromYear yr \<le> Day now" "Day now < DayFromYear (yr + 1)"
    by (simp_all add: getFullYear_iff)
  show ?thesis
  proof (cases "counted cal (Day now)")
    case c: True
    have e: "newDate yr (getMonth now) (getDate now) = Day now * msPerDay"
      using newDate_today[OF ny] True by simp
    have y: "getFullYear (Day now * msPerDay) = yr"
      using b by (simp add: getFullYear_iff Day_times)
    show ?thesis
      using c True streakLoop_walkBack[OF y, of cal 0]
      by (simp add: safetyStreak_def computeStreak_def Let_def counted_Day[symmetric] e y Day_times)
  next
    case c: False
    have e: "newDate yr (getMonth now) (getDate now - 1) = (Day now - 1) * msPerDay"
      using newDate_yesterday[OF ny] True by simp
    show ?thesis
    proof (cases "getFullYear ((Day now - 1) * msPerDay) = yr")
      case y: True
      show ?thesis
        using c True streakLoop_walkBack[OF y, of cal 0]
        by (simp add: safetyStreak_def computeStreak_def Let_def counted_Day[symmetric] e y Day_times)
    next
      case y: False
      with b have "Day now = DayFromYear yr" by (simp add: getFullYear_iff Day_times)
      then show ?thesis
        using c True y
        by (simp add: safetyStreak_def computeStreak_def Let_def counted_Day[symmetric] e)
    qed
  qed
qed

lemma monthStart_le_day:
  assumes "L = 0 \<or> L = 1" "0 \<le> d"
  shows "monthStart L (monthOfDay L d) \<le> d"
  using assms by (auto simp: monthOfDay_def monthStart_def)

lemma monthStart_nonneg:
  assumes "L = 0 \<or> L = 1"
  shows "0 \<le> monthStart L m"
  using assms by (auto simp: monthStart_def)

lemma DateFromTime_pos: "1 \<le> DateFromTime t"
proof -
  have "0 \<le> DayWithinYear t"
    using YearFromDay_bounds[of "Day t"] by (simp add: DayWithinYear_def YearFromTime_def)
  from monthStart_le_day[OF leapFlag_cases this]
  show ?thesis by (simp add: DateFromTime_def MonthFromTime_def InLeapYear_def)
qed

lemma safetyStreak_two_digit_year:
  assumes "0 \<le> yr" "yr \<le> 99"
  shows "safetyStreak cal now yr = 0"
proof (cases "getFullYear now = yr")
  case False
  then show ?thesis by (simp add: safetyStreak_def)
next
  case True
  have far: "DayFromYear (yr + 1) + 1 \<le> DayFromYear (1900 + yr)"
  proof -
    have "DayFromYear (yr + 2) \<le> DayFromYear (1900 + yr)"
      by (intro DayFromYear_mono) simp
    moreover have "DayFromYear (yr + 1) < DayFromYear (yr + 1 + 1)"
      using DayFromYear_Suc[of "yr + 1"] DaysInYear_pos[of "yr + 1"] by simp
    ultimately show ?thesis by (simp add: add.assoc)
  qed
  have later: "getFullYear (newDate yr (getMonth now) d) \<noteq> yr" if "0 \<le> d" for d
  proof -
    have "Day (newDate yr (getMonth now) d) =
        DayFromYear (1900 + yr) + monthStart (leapFlag (1900 + yr)) (MonthFromTime now) + d - 1"
      using assms MonthFromTime_range[of now]
      by (simp add: newDate_def Day_MakeDate msPerDay_def MakeDay_def getMonth_def
          div_pos_pos_trivial mod_pos_pos_trivial Let_def)
    with far that monthStart_nonneg[OF leapFlag_cases, of "1900 + yr" "MonthFromTime now"]
    have "DayFromYear (yr + 1) \<le> Day (newDate yr (getMonth now) d)" by simp
    then show ?thesis by (simp add: getFullYear_iff)
  qed
  have "0 \<le> getDate now" "0 \<le> getDate now - 1"
    using DateFromTime_pos[of now] by (simp_all add: getDate_def)
  then show ?thesis
    using True later by (simp add: safetyStreak_def Let_def)
qed


text \<open>
  The spec's two examples, on a January of ten days: days 8 to 10 safe; and days 1 to
  5 safe with an accident on day 6. The clock reads 10 January 2026, 17:00.
\<close>

definition threeSafeDays :: "MonthlyData list" where
  "threeSafeDays = [\<lparr>month = 0, year = 2026, days =
     [\<lparr>day = 1, status = None\<rparr>, \<lparr>day = 2, status = None\<rparr>, \<lparr>day = 3, status = None\<rparr>,
      \<lparr>day = 4, status = None\<rparr>, \<lparr>day = 5, status = None\<rparr>, \<lparr>day = 6, status = None\<rparr>,
      \<lparr>day = 7, status = None\<rparr>, \<lparr>day = 8, status = Some Safe\<rparr>,
      \<lparr>day = 9, status = Some Safe\<rparr>, \<lparr>day = 10, status = Some Safe\<rparr>]\<rparr>]"

definition accidentOnSixth :: "MonthlyData list" where
  "accidentOnSixth = [\<lparr>month = 0, year = 2026, days =
     [\<lparr>day = 1, status = Some Safe\<rparr>, \<lparr>day = 2, status = Some Safe\<rparr>,
      \<lparr>day = 3, status = Some Safe\<rparr>, \<lparr>day = 4, status = Some Safe\<rparr>,
      \<lparr>day = 5, status = Some Safe\<rparr>, \<lparr>day = 6, status = Some Accident\<rparr>,
      \<lparr>day = 7, status = None\<rparr>, \<lparr>day = 8, status = None\<rparr>,
      \<lparr>day = 9, status = None\<rparr>, \<lparr>day = 10, status = None\<rparr>]\<rparr>]"

definition jan10_1700 :: Date where "jan10_1700 = newDate 2026 0 10 + 17 * msPerHour"

lemma threeSafeDays_walk: "computeStreak threeSafeDays jan10_1700 2026 = 3"
  by code_simp

lemma accidentOnSixth_walk: "computeStreak accidentOnSixth jan10_1700 2026 = 0"
  by code_simp

theorem safetyStreak_walks_back_witness:
  "\<not> (0 \<le> (2026::int) \<and> (2026::int) \<le> 99)
   \<and> safetyStreak threeSafeDays jan10_1700 2026 = 3
   \<and> safetyStreak accidentOnSixth jan10_1700 2026 = 0"
proof -
  have h: "\<not> (0 \<le> (2026::int) \<and> (2026::int) \<le> 99)" by simp
  show ?thesis
    using safetyStreak_walks_back [OF h, of threeSafeDays jan10_1700]
      safetyStreak_walks_back [OF h, of accidentOnSixth jan10_1700]
    by (simp only: threeSafeDays_walk accidentOnSixth_walk) simp
qed

section \<open>Dates of one year in calendar order\<close>

text \<open>
  The comparison \<open>dt < todayStart\<close> of \<open>applyAutoSafe\<close> read on the calendar: for a
  day of month \<open>m\<close> with a day number the month has, in the year of \<open>now\<close>, it holds
  exactly when the month is an earlier one, or the month is now's and the day number is
  smaller than now's.
\<close>

lemma monthLength_pos: "L = 0 \<or> L = 1 \<Longrightarrow> 1 \<le> monthLength L m"
  by (auto simp: monthLength_def)

lemma monthStart_mono:
  assumes L: "L = 0 \<or> L = 1" and "0 \<le> m" "m \<le> m'" "m' < 12"
  shows "monthStart L m \<le> monthStart L m'"
  using assms(3,2,4)
proof (induction m' rule: int_ge_induct)
  case base
  show ?case by simp
next
  case (step i)
  then have "monthStart L (i + 1) = monthStart L i + monthLength L i"
    by (intro monthStart_next) simp_all
  with step monthLength_pos[OF L, of i] show ?case by simp
qed

lemma monthStart_before:
  assumes L: "L = 0 \<or> L = 1" and "0 \<le> m" "m < m'" "m' < 12"
  shows "monthStart L m + monthLength L m \<le> monthStart L m'"
proof -
  have "monthStart L (m + 1) = monthStart L m + monthLength L m"
    using assms by (intro monthStart_next) simp_all
  moreover have "monthStart L (m + 1) \<le> monthStart L m'"
    using assms by (intro monthStart_mono) simp_all
  ultimately show ?thesis by simp
qed

lemma newDate_less_iff:
  assumes m: "0 \<le> m" "m < 12" and d: "1 \<le> d" "d \<le> daysInMonth (constructorYear yr) m"
    and m': "0 \<le> m'" "m' < 12" and d': "1 \<le> d'" "d' \<le> daysInMonth (constructorYear yr) m'"
  shows "newDate yr m d < newDate yr m' d' \<longleftrightarrow> m < m' \<or> (m = m' \<and> d < d')"
proof -
  let ?L = "leapFlag (constructorYear yr)"
  have n: "newDate yr k x = MakeDay (constructorYear yr) k x * msPerDay" for k x
    by (simp add: newDate_def constructorYear_def MakeDate_def)
  have md: "MakeDay (constructorYear yr) k x = DayFromYear (constructorYear yr) + monthStart ?L k + x - 1"
    if "0 \<le> k" "k < 12" for k x
    using that by (simp add: MakeDay_def div_pos_pos_trivial mod_pos_pos_trivial Let_def)
  have "newDate yr m d < newDate yr m' d'
      \<longleftrightarrow> MakeDay (constructorYear yr) m d < MakeDay (constructorYear yr) m' d'"
    unfolding n by (simp add: msPerDay_def)
  then have e: "newDate yr m d < newDate yr m' d' \<longleftrightarrow> monthStart ?L m + d < monthStart ?L m' + d'"
    by (simp add: md[OF m] md[OF m'])
  have dl: "d \<le> monthLength ?L m" "d' \<le> monthLength ?L m'"
    using d d' by (simp_all add: daysInMonth_monthLength)
  consider "m < m'" | "m' < m" | "m = m'" by linarith
  then show ?thesis
  proof cases
    case 1
    from monthStart_before[OF leapFlag_cases m(1) 1 m'(2), of "constructorYear yr"] dl d' 1
    show ?thesis by (simp add: e)
  next
    case 2
    from monthStart_before[OF leapFlag_cases m'(1) 2 m(2), of "constructorYear yr"] dl d 2
    show ?thesis by (simp add: e)
  next
    case 3
    with e show ?thesis by simp
  qed
qed

lemma monthOfDay_upper:
  assumes "L = 0 \<or> L = 1" "d < 365 + L"
  shows "d < monthStart L (monthOfDay L d) + monthLength L (monthOfDay L d)"
  using assms by (auto simp: monthOfDay_def monthStart_def monthLength_def)

lemma getDate_range:
  "1 \<le> getDate t \<and> getDate t \<le> daysInMonth (getFullYear t) (getMonth t)"
proof -
  have "DayWithinYear t < 365 + leapFlag (YearFromTime t)"
    using YearFromDay_bounds[of "Day t"]
    by (simp add: DayWithinYear_def YearFromTime_def DayFromYear_Suc leap_year_length)
  from monthOfDay_upper[OF leapFlag_cases this] DateFromTime_pos[of t]
  show ?thesis
    by (simp add: getDate_def getFullYear_def getMonth_def DateFromTime_def MonthFromTime_def
        InLeapYear_def daysInMonth_monthLength)
qed

lemma before_today_iff:
  assumes "getFullYear now = yr" "yr \<noteq> 0"
    and m: "0 \<le> m" "m < 12" and d: "1 \<le> d" "d \<le> daysInMonth yr m"
  shows "newDate yr m d < newDate yr (getMonth now) (getDate now)
     \<longleftrightarrow> m < getMonth now \<or> (m = getMonth now \<and> d < getDate now)"
proof -
  have c: "daysInMonth (constructorYear yr) k = daysInMonth yr k" for k
    using assms(2) by (rule daysInMonth_constructorYear)
  show ?thesis
    using getDate_range[of now] MonthFromTime_range[of now] assms(1) m d
    by (intro newDate_less_iff) (simp_all add: c getMonth_def)
qed

section \<open>Stored data and its validation\<close>

text \<open>
  What \<open>JSON.parse\<close> returns: the untyped input of the load path (\<open>unknown\<close> in
  \<open>isValidMonthlyData\<close>). An object is the list of its entries, keys distinct as
  \<open>JSON.parse\<close> leaves them.
\<close>

datatype json =
    JNull
  | JBool bool
  | JNum real
  | JStr jsstring
  | JArr "json list"
  | JObj "(jsstring \<times> json) list"

text \<open>JavaScript truthiness, and reading a property of a value that is not \<open>null\<close>: \<open>None\<close> is \<open>undefined\<close>.\<close>

fun truthy :: "json \<Rightarrow> bool" where
  "truthy JNull = False"
| "truthy (JBool b) = b"
| "truthy (JNum r) = (r \<noteq> 0)"
| "truthy (JStr s) = (s \<noteq> [])"
| "truthy (JArr xs) = True"
| "truthy (JObj kvs) = True"

fun getProp :: "json \<Rightarrow> jsstring \<Rightarrow> json option" where
  "getProp (JObj kvs) k = map_of kvs k"
| "getProp v k = None"

text \<open>
  \<open>isValidMonthlyData\<close>, lines 145-149; \<open>monthValid\<close> is the callback of \<open>every\<close>.
\<close>

definition monthValid :: "int \<Rightarrow> nat \<Rightarrow> json \<Rightarrow> bool" where
  "monthValid yr idx m =
     (truthy m
      \<and> getProp m (js ''month'') = Some (JNum (real idx))
      \<and> getProp m (js ''year'') = Some (JNum (real_of_int yr))
      \<and> (case getProp m (js ''days'') of
            Some (JArr ds) \<Rightarrow> int (length ds) = getDate (newDate yr (int idx + 1) 0)
          | _ \<Rightarrow> False))"

definition isValidMonthlyData :: "json option \<Rightarrow> int \<Rightarrow> bool" where
  "isValidMonthlyData data yr =
     (case data of
        Some (JArr ms) \<Rightarrow>
          length ms = 12 \<and> list_all (\<lambda>(idx, m). monthValid yr idx m) (enumerate 0 ms)
      | _ \<Rightarrow> False)"

text \<open>
  A \<open>MonthlyData[]\<close> of the program as a value, and back: \<open>asMonthlyData\<close> succeeds
  on the values that have the declared type.
\<close>

fun encodeStatus :: "DayStatus option \<Rightarrow> json" where
  "encodeStatus None = JNull"
| "encodeStatus (Some Safe) = JStr (js ''safe'')"
| "encodeStatus (Some NearMiss) = JStr (js ''near_miss'')"
| "encodeStatus (Some Accident) = JStr (js ''accident'')"

definition encodeDay :: "DailyStatistic \<Rightarrow> json" where
  "encodeDay dd = JObj [(js ''day'', JNum (real_of_int (day dd))), (js ''status'', encodeStatus (status dd))]"

definition encodeMonth :: "MonthlyData \<Rightarrow> json" where
  "encodeMonth mm =
     JObj [(js ''month'', JNum (real_of_int (month mm))), (js ''year'', JNum (real_of_int (year mm))),
           (js ''days'', JArr (map encodeDay (days mm)))]"

definition encodeCalendar :: "MonthlyData list \<Rightarrow> json" where
  "encodeCalendar cal = JArr (map encodeMonth cal)"

definition decodeInt :: "json option \<Rightarrow> int option" where
  "decodeInt v = (case v of Some (JNum r) \<Rightarrow> if r = real_of_int \<lfloor>r\<rfloor> then Some \<lfloor>r\<rfloor> else None | _ \<Rightarrow> None)"

definition decodeStatus :: "json option \<Rightarrow> DayStatus option option" where
  "decodeStatus v =
     (case v of
        Some JNull \<Rightarrow> Some None
      | Some (JStr s) \<Rightarrow>
          if s = js ''safe'' then Some (Some Safe)
          else if s = js ''near_miss'' then Some (Some NearMiss)
          else if s = js ''accident'' then Some (Some Accident)
          else None
      | _ \<Rightarrow> None)"

definition decodeDay :: "json \<Rightarrow> DailyStatistic option" where
  "decodeDay v =
     (case (decodeInt (getProp v (js ''day'')), decodeStatus (getProp v (js ''status''))) of
        (Some d, Some st) \<Rightarrow> Some \<lparr>day = d, status = st\<rparr>
      | _ \<Rightarrow> None)"

definition decodeMonth :: "json \<Rightarrow> MonthlyData option" where
  "decodeMonth v =
     (case (decodeInt (getProp v (js ''month'')), decodeInt (getProp v (js ''year'')), getProp v (js ''days'')) of
        (Some m, Some y, Some (JArr ds)) \<Rightarrow>
          (case those (map decodeDay ds) of
             Some dds \<Rightarrow> Some \<lparr>month = m, year = y, days = dds\<rparr>
           | None \<Rightarrow> None)
      | _ \<Rightarrow> None)"

definition asMonthlyData :: "json \<Rightarrow> MonthlyData list option" where
  "asMonthlyData v = (case v of JArr ms \<Rightarrow> those (map decodeMonth ms) | _ \<Rightarrow> None)"

lemma keys_distinct:
  "js ''day'' \<noteq> js ''status''" "js ''month'' \<noteq> js ''year''" "js ''month'' \<noteq> js ''days''"
  "js ''year'' \<noteq> js ''days''" "js ''year'' \<noteq> js ''month''" "js ''days'' \<noteq> js ''month''"
  "js ''days'' \<noteq> js ''year''" "js ''status'' \<noteq> js ''day''"
  by (simp_all add: js_def)






lemma list_all_enumerate:
  "list_all (\<lambda>(idx, m). P idx m) (enumerate 0 ms) \<longleftrightarrow> (\<forall>idx < length ms. P idx (ms ! idx))"
  by (auto simp: list_all_length nth_enumerate_eq)

lemma isValidMonthlyData_iff:
  assumes "yr \<noteq> 0"
  shows "isValidMonthlyData data yr \<longleftrightarrow>
     (\<exists>ms. data = Some (JArr ms) \<and> length ms = 12
        \<and> (\<forall>idx < 12.
              truthy (ms ! idx)
            \<and> getProp (ms ! idx) (js ''month'') = Some (JNum (real idx))
            \<and> getProp (ms ! idx) (js ''year'') = Some (JNum (real_of_int yr))
            \<and> (\<exists>ds. getProp (ms ! idx) (js ''days'') = Some (JArr ds)
                   \<and> int (length ds) = daysInMonth yr (int idx))))"
proof -
  have mv: "monthValid yr idx m \<longleftrightarrow>
      truthy m \<and> getProp m (js ''month'') = Some (JNum (real idx))
      \<and> getProp m (js ''year'') = Some (JNum (real_of_int yr))
      \<and> (\<exists>ds. getProp m (js ''days'') = Some (JArr ds) \<and> int (length ds) = daysInMonth yr (int idx))"
    if "idx < 12" for idx m
    using that assms
    by (auto simp: monthValid_def getDate_day_zero daysInMonth_constructorYear
        split: option.splits json.splits)
  show ?thesis
  proof (cases data)
    case None
    then show ?thesis by (simp add: isValidMonthlyData_def)
  next
    case (Some v)
    show ?thesis
    proof (cases v)
      case (JArr ms)
      show ?thesis
      proof (cases "length ms = 12")
        case True
        then show ?thesis
          using mv by (simp add: isValidMonthlyData_def Some JArr list_all_enumerate)
      next
        case False
        then show ?thesis by (simp add: isValidMonthlyData_def Some JArr)
      qed
    qed (simp_all add: isValidMonthlyData_def Some)
  qed
qed

lemma isValidMonthlyData_createYearData:
  "isValidMonthlyData (Some (encodeCalendar (createYearData yr))) yr"
proof -
  have "monthValid yr idx (map encodeMonth (createYearData yr) ! idx)" if "idx < 12" for idx
    using that
    by (simp add: length_createYearData createYearData_nth monthValid_def encodeMonth_def
        keys_distinct getDate_day_zero daysInMonth_pos order_trans[OF _ daysInMonth_pos])
  then show ?thesis
    by (simp add: isValidMonthlyData_def encodeCalendar_def length_createYearData list_all_enumerate)
qed


text \<open>
  Claim C7. \<open>createYearData\<close> makes twelve months, month \<open>m\<close> carrying its index,
  the year, and as many days as month \<open>m\<close> of that year has by the leap-year rule
  (\<open>daysInMonth\<close>), numbered from 1 and all unset. \<open>isValidMonthlyData\<close> accepts it,
  and accepts a candidate exactly when it is an array of twelve entries, entry
  \<open>idx\<close> an object whose \<open>month\<close> is \<open>idx\<close>, whose \<open>year\<close> is the year asked
  for, and whose \<open>days\<close> is an array of the month's true length. The year 0 is left
  aside: the \<open>Date\<close> constructor reads it as 1900, which is no leap year.
\<close>

theorem createYearData_valid:
  assumes "yr \<noteq> 0"
  shows "length (createYearData yr) = 12
   \<and> (\<forall>m < 12.
         month (createYearData yr ! m) = int m
       \<and> year (createYearData yr ! m) = yr
       \<and> int (length (days (createYearData yr ! m))) = daysInMonth yr (int m)
       \<and> (\<forall>i < length (days (createYearData yr ! m)).
             days (createYearData yr ! m) ! i = \<lparr>day = int i + 1, status = None\<rparr>))
   \<and> isValidMonthlyData (Some (encodeCalendar (createYearData yr))) yr
   \<and> (\<forall>data. isValidMonthlyData data yr \<longleftrightarrow>
         (\<exists>ms. data = Some (JArr ms) \<and> length ms = 12
            \<and> (\<forall>idx < 12.
                  truthy (ms ! idx)
                \<and> getProp (ms ! idx) (js ''month'') = Some (JNum (real idx))
                \<and> getProp (ms ! idx) (js ''year'') = Some (JNum (real_of_int yr))
                \<and> (\<exists>ds. getProp (ms ! idx) (js ''days'') = Some (JArr ds)
                       \<and> int (length ds) = daysInMonth yr (int idx)))))"
proof -
  have a: "\<forall>m < 12.
         month (createYearData yr ! m) = int m
       \<and> year (createYearData yr ! m) = yr
       \<and> int (length (days (createYearData yr ! m))) = daysInMonth yr (int m)
       \<and> (\<forall>i < length (days (createYearData yr ! m)).
             days (createYearData yr ! m) ! i = \<lparr>day = int i + 1, status = None\<rparr>)"
    using assms daysInMonth_pos[of yr]
    by (auto simp: createYearData_nth daysInMonth_constructorYear order_trans[OF _ daysInMonth_pos])
  show ?thesis
    using a isValidMonthlyData_iff[OF assms] isValidMonthlyData_createYearData[of yr]
    by (simp add: length_createYearData)
qed

text \<open>The spec's examples: eleven months, and a fourth month that claims 2025.\<close>

definition elevenMonths :: json where
  "elevenMonths = JArr (take 11 (map encodeMonth (createYearData 2026)))"

definition aprilOf2025 :: json where
  "aprilOf2025 =
     encodeCalendar ((createYearData 2026)[3 := (createYearData 2026 ! 3)\<lparr>year := 2025\<rparr>])"

theorem createYearData_valid_witness:
  "(2028::int) \<noteq> 0 \<and> (2026::int) \<noteq> 0
   \<and> length (days (createYearData 2028 ! 1)) = 29
   \<and> length (days (createYearData 2026 ! 1)) = 28
   \<and> days (createYearData 2028 ! 1) ! 28 = \<lparr>day = 29, status = None\<rparr>
   \<and> isValidMonthlyData (Some (encodeCalendar (createYearData 2026))) 2026
   \<and> \<not> isValidMonthlyData (Some elevenMonths) 2026
   \<and> \<not> isValidMonthlyData (Some aprilOf2025) 2026"
proof -
  have h8: "(2028::int) \<noteq> 0" and h6: "(2026::int) \<noteq> 0" by simp_all
  note t8 = createYearData_valid [OF h8]
  note t6 = createYearData_valid [OF h6]
  from t8[THEN conjunct2, THEN conjunct1, rule_format, of 1]
  have "int (length (days (createYearData 2028 ! 1))) = daysInMonth 2028 1" by simp
  then have a: "length (days (createYearData 2028 ! 1)) = 29" by (simp add: daysInMonth_def)
  from t8[THEN conjunct2, THEN conjunct1, rule_format, of 1, THEN conjunct2, THEN conjunct2,
      THEN conjunct2, rule_format, of 28] a
  have a': "days (createYearData 2028 ! 1) ! 28 = \<lparr>day = 29, status = None\<rparr>" by simp
  from t6[THEN conjunct2, THEN conjunct1, rule_format, of 1]
  have "int (length (days (createYearData 2026 ! 1))) = daysInMonth 2026 1" by simp
  then have b: "length (days (createYearData 2026 ! 1)) = 28" by (simp add: daysInMonth_def)
  from t6[THEN conjunct2, THEN conjunct2, THEN conjunct1]
  have c: "isValidMonthlyData (Some (encodeCalendar (createYearData 2026))) 2026" .
  from t6[THEN conjunct2, THEN conjunct2, THEN conjunct2] have iff: "\<And>data. isValidMonthlyData data 2026 \<longleftrightarrow>
         (\<exists>ms. data = Some (JArr ms) \<and> length ms = 12
            \<and> (\<forall>idx < 12.
                  truthy (ms ! idx)
                \<and> getProp (ms ! idx) (js ''month'') = Some (JNum (real idx))
                \<and> getProp (ms ! idx) (js ''year'') = Some (JNum (real_of_int 2026))
                \<and> (\<exists>ds. getProp (ms ! idx) (js ''days'') = Some (JArr ds)
                       \<and> int (length ds) = daysInMonth 2026 (int idx))))"
    by blast
  have d: "\<not> isValidMonthlyData (Some elevenMonths) 2026"
    by (simp add: iff elevenMonths_def length_createYearData)
  have y25: "getProp (map encodeMonth ((createYearData 2026)[3 := (createYearData 2026 ! 3)\<lparr>year := 2025\<rparr>]) ! 3)
          (js ''year'') = Some (JNum 2025)"
    by (simp add: length_createYearData encodeMonth_def keys_distinct)
  have e: "\<not> isValidMonthlyData (Some aprilOf2025) 2026"
  proof
    assume "isValidMonthlyData (Some aprilOf2025) 2026"
    then obtain ms where ms: "aprilOf2025 = JArr ms"
      and all: "\<forall>idx < 12. truthy (ms ! idx)
                \<and> getProp (ms ! idx) (js ''month'') = Some (JNum (real idx))
                \<and> getProp (ms ! idx) (js ''year'') = Some (JNum (real_of_int 2026))
                \<and> (\<exists>ds. getProp (ms ! idx) (js ''days'') = Some (JArr ds)
                       \<and> int (length ds) = daysInMonth 2026 (int idx))"
      unfolding iff by blast
    from all have "getProp (ms ! 3) (js ''year'') = Some (JNum (real_of_int 2026))" by simp
    moreover from ms have "ms = map encodeMonth ((createYearData 2026)[3 := (createYearData 2026 ! 3)\<lparr>year := 2025\<rparr>])"
      by (simp add: aprilOf2025_def encodeCalendar_def)
    ultimately show False using y25 by simp
  qed
  from a a' b c d e show ?thesis by simp
qed

section \<open>Loading the persisted state\<close>

text \<open>
  The defaults of lines 81-97 and 350-361. The two announcement texts are Thai and are
  given by their UTF-16 code units.
\<close>

definition announcementText1 :: jsstring where
  "announcementText1 = [
      0x0050, 0x0050, 0x0045, 0x0020, 0x0041, 0x0075, 0x0064, 0x0069, 0x0074, 0x0020,
      0x0E1B, 0x0E23, 0x0E30, 0x0E08, 0x0E33, 0x0E2A, 0x0E31, 0x0E1B, 0x0E14, 0x0E32,
      0x0E2B, 0x0E4C, 0x0E17, 0x0E38, 0x0E01, 0x0E27, 0x0E31, 0x0E19, 0x0E1E, 0x0E24,
      0x0E2B, 0x0E31, 0x0E2A, 0x0E1A, 0x0E14, 0x0E35, 0x0020, 0x0E40, 0x0E27, 0x0E25,
      0x0E32, 0x0020, 0x0030, 0x0039, 0x003A, 0x0030, 0x0030, 0x0020, 0x0E19, 0x002E]"

definition announcementText2 :: jsstring where
  "announcementText2 = [
      0x0045, 0x006D, 0x0065, 0x0072, 0x0067, 0x0065, 0x006E, 0x0063, 0x0079, 0x0020,
      0x0044, 0x0072, 0x0069, 0x006C, 0x006C, 0x0020, 0x0E44, 0x0E15, 0x0E23, 0x0E21,
      0x0E32, 0x0E2A, 0x0E19, 0x0E35, 0x0E49, 0x0E01, 0x0E33, 0x0E2B, 0x0E19, 0x0E14,
      0x0E27, 0x0E31, 0x0E19, 0x0E17, 0x0E35, 0x0E48, 0x0020, 0x0032, 0x0038, 0x0020,
      0x0E21, 0x0E35, 0x0E19, 0x0E32, 0x0E04, 0x0E21, 0x0020, 0x0032, 0x0030, 0x0032, 0x0036]"

definition DEFAULT_ANNOUNCEMENTS :: "json list" where
  "DEFAULT_ANNOUNCEMENTS =
     [JObj [(js ''id'', JStr (js ''1'')), (js ''text'', JStr announcementText1)],
      JObj [(js ''id'', JStr (js ''2'')), (js ''text'', JStr announcementText2)]]"

definition DEFAULT_METRICS :: "json list" where
  "DEFAULT_METRICS =
     [JObj [(js ''id'', JStr (js ''m1'')), (js ''label'', JStr (js ''First Aid'')),
            (js ''value'', JStr (js ''0'')), (js ''unit'', JStr (js ''case''))],
      JObj [(js ''id'', JStr (js ''m2'')), (js ''label'', JStr (js ''Non-Absent'')),
            (js ''value'', JStr (js ''0'')), (js ''unit'', JStr (js ''case''))],
      JObj [(js ''id'', JStr (js ''m3'')), (js ''label'', JStr (js ''Absent'')),
            (js ''value'', JStr (js ''0'')), (js ''unit'', JStr (js ''case''))],
      JObj [(js ''id'', JStr (js ''m4'')), (js ''label'', JStr (js ''Fire'')),
            (js ''value'', JStr (js ''0'')), (js ''unit'', JStr (js ''case''))],
      JObj [(js ''id'', JStr (js ''m5'')), (js ''label'', JStr (js ''IFR'')),
            (js ''value'', JStr (js ''0'')), (js ''unit'', JStr (js ''''))],
      JObj [(js ''id'', JStr (js ''m6'')), (js ''label'', JStr (js ''ISR'')),
            (js ''value'', JStr (js ''1.2'')), (js ''unit'', JStr (js ''''))]]"

definition DEFAULT_POSTER_TOP :: jsstring where
  "DEFAULT_POSTER_TOP = js ''/company-policy-poster.png''"

definition DEFAULT_POSTER_BOTTOM :: jsstring where
  "DEFAULT_POSTER_BOTTOM = js ''/safety-culture.png''"

definition DEFAULT_POLICY_IMAGES :: "json list" where
  "DEFAULT_POLICY_IMAGES = [JStr (js ''/policy-vp.png'')]"

definition DEFAULT_TARGET_VARS :: "(jsstring \<times> json) list" where
  "DEFAULT_TARGET_VARS =
     [(js ''manpower'', JNum 675), (js ''daysPerWeek'', JNum 6), (js ''hoursPerDay'', JNum 10),
      (js ''workingDaysYear'', JNum 250), (js ''workingDaysSoFar'', JNum 0)]"

definition DEFAULT_TARGET_FORMULAS :: "(jsstring \<times> json) list" where
  "DEFAULT_TARGET_FORMULAS =
     [(js ''totalExpr'', JStr (js ''manpower * daysPerWeek * hoursPerDay * workingDaysYear'')),
      (js ''toDateExpr'', JStr (js ''manpower * daysPerWeek * hoursPerDay * workingDaysSoFar''))]"

text \<open>\<open>clamp\<close>, line 121.\<close>

definition clamp :: "real \<Rightarrow> real \<Rightarrow> real \<Rightarrow> real" where
  "clamp n mn mx = min mx (max mn n)"

text \<open>
  The state the load effect writes. The calendar it holds is a \<open>MonthlyData[]\<close> by
  its TypeScript type; stored data can pass \<open>isValidMonthlyData\<close>, which looks at the
  months and the number of their days only, without having that type (a day entry that
  is no \<open>{day, status}\<close> object). \<open>Untyped\<close> stands for such a calendar; what it
  holds is not modelled. The lists are kept as the values they were stored as: the
  load path does not look into their elements.
\<close>

datatype calendarState = Typed "MonthlyData list" | Untyped

record dashboardState =
  monthlyData :: calendarState
  announcements :: "json list"
  posterTop :: "jsstring option"
  posterBottom :: "jsstring option"
  posterTopZoom :: real
  posterBottomZoom :: real
  policyImages :: "json list"
  policyZoom :: real
  targetVars :: "(jsstring \<times> json) list"
  targetFormulas :: "(jsstring \<times> json) list"
  bestRecord :: real
  lossTimeAccidents :: real
  lastUpdateIso :: jsstring
  metrics :: "json list"

text \<open>The initial values of the \<open>useState\<close> calls, lines 367-389.\<close>

definition initialState :: "jsstring \<Rightarrow> int \<Rightarrow> dashboardState" where
  "initialState nowIso yr =
     \<lparr>monthlyData = Typed (createYearData yr),
      announcements = DEFAULT_ANNOUNCEMENTS,
      posterTop = Some DEFAULT_POSTER_TOP,
      posterBottom = Some DEFAULT_POSTER_BOTTOM,
      posterTopZoom = 1,
      posterBottomZoom = 1,
      policyImages = DEFAULT_POLICY_IMAGES,
      policyZoom = 1,
      targetVars = DEFAULT_TARGET_VARS,
      targetFormulas = DEFAULT_TARGET_FORMULAS,
      bestRecord = 0,
      lossTimeAccidents = 0,
      lastUpdateIso = nowIso,
      metrics = DEFAULT_METRICS\<rparr>"


text \<open>
  The readers of the single fields, lines 478-502: each takes the value of one property
  of the parsed document (\<open>None\<close> when it is missing).
\<close>

definition nonEmptyArrayOr :: "json list \<Rightarrow> json option \<Rightarrow> json list" where
  "nonEmptyArrayOr dflt v = (case v of Some (JArr xs) \<Rightarrow> if xs \<noteq> [] then xs else dflt | _ \<Rightarrow> dflt)"

definition stringOr :: "jsstring \<Rightarrow> json option \<Rightarrow> jsstring" where
  "stringOr dflt v = (case v of Some (JStr s) \<Rightarrow> s | _ \<Rightarrow> dflt)"

definition zoomOr1 :: "json option \<Rightarrow> real" where
  "zoomOr1 v = (case v of Some (JNum r) \<Rightarrow> clamp r 0.5 2.5 | _ \<Rightarrow> 1)"

text \<open>
  Converting a parsed value to a number, as \<open>Number(...)\<close> in lines 497-498 and the
  day argument of \<open>new Date(year, m, dd.day)\<close> in line 170 do, first asks the value
  for a primitive. An object answers with \<open>Object.prototype.toString\<close>, unless it has
  a property \<open>toString\<close> of its own: coming from \<open>JSON.parse\<close> that is no function,
  \<open>valueOf\<close> (its own, or the inherited one, which returns the object) gives no
  primitive either, and the conversion throws a \<open>TypeError\<close>. An array joins the
  conversions of its elements (\<open>null\<close> as the empty string) and throws when one of
  them does. Every other value converts without throwing; \<open>undefined\<close>, a missing
  property, gives \<open>NaN\<close>.
\<close>

datatype error = TypeError

fun toPrimitiveThrows :: "json \<Rightarrow> bool" where
  "toPrimitiveThrows (JObj kvs) = (map_of kvs (js ''toString'') \<noteq> None)"
| "toPrimitiveThrows (JArr xs) = list_ex toPrimitiveThrows xs"
| "toPrimitiveThrows v = False"

definition conversionThrows :: "json option \<Rightarrow> bool" where
  "conversionThrows v = (case v of Some x \<Rightarrow> toPrimitiveThrows x | None \<Rightarrow> False)"

text \<open>
  \<open>Number(v)\<close>: the \<open>TypeError\<close>, or the number, \<open>None\<close> when it is not finite.
  \<open>toNumber\<close> is the platform's conversion where it does not throw.
\<close>

definition Number :: "(json option \<Rightarrow> real option) \<Rightarrow> json option \<Rightarrow> error + real option" where
  "Number toNumber v = (if conversionThrows v then Inl TypeError else Inr (toNumber v))"

text \<open>\<open>Number.isFinite(Number(v)) ? Number(v) : 0\<close>, lines 497-498.\<close>

definition finiteOr0 :: "(json option \<Rightarrow> real option) \<Rightarrow> json option \<Rightarrow> error + real" where
  "finiteOr0 toNumber v =
     (case Number toNumber v of
        Inl e \<Rightarrow> Inl e
      | Inr None \<Rightarrow> Inr 0
      | Inr (Some r) \<Rightarrow> Inr r)"

text \<open>The object spread \<open>{ ...DEFAULT, ...value }\<close>; an array spreads its indices as keys.\<close>

function decimal :: "nat \<Rightarrow> jsstring" where
  "decimal n = (if n < 10 then [of_nat (48 + n)] else decimal (n div 10) @ [of_nat (48 + n mod 10)])"
  by pat_completeness auto
termination
  by (relation "measure id") auto

declare decimal.simps [simp del]

definition ownEntries :: "json \<Rightarrow> (jsstring \<times> json) list" where
  "ownEntries v =
     (case v of
        JObj kvs \<Rightarrow> kvs
      | JArr xs \<Rightarrow> zip (map decimal [0..<length xs]) xs
      | _ \<Rightarrow> [])"

definition spreadOver :: "(jsstring \<times> json) list \<Rightarrow> (jsstring \<times> json) list \<Rightarrow> (jsstring \<times> json) list" where
  "spreadOver a b =
     map (\<lambda>(k, v). (k, case map_of b k of Some v' \<Rightarrow> v' | None \<Rightarrow> v)) a
     @ filter (\<lambda>(k, v). map_of a k = None) b"

definition objectOr :: "(jsstring \<times> json) list \<Rightarrow> json option \<Rightarrow> (jsstring \<times> json) list" where
  "objectOr dflt v =
     (case v of
        Some (JObj kvs) \<Rightarrow> spreadOver dflt (ownEntries (JObj kvs))
      | Some (JArr xs) \<Rightarrow> spreadOver dflt (ownEntries (JArr xs))
      | _ \<Rightarrow> dflt)"

definition policyImagesOr :: "json option \<Rightarrow> json list" where
  "policyImagesOr v =
     (case v of Some (JArr xs) \<Rightarrow> if xs \<noteq> [] then take 2 xs else DEFAULT_POLICY_IMAGES
      | _ \<Rightarrow> DEFAULT_POLICY_IMAGES)"

text \<open>
  What \<open>localStorage.getItem\<close> and \<open>JSON.parse\<close> give: no item (or the empty
  string), an exception of one of the two (text that does not parse), or a value.
\<close>

datatype stored = NoItem | Unparsable | Parsed json

text \<open>
  \<open>applyAutoSafe\<close> on a stored calendar that passed the validation, which has looked
  at the months and at the number of their days, not at the day entries. When \<open>now\<close>
  is in another year it returns at line 152 and reads nothing. Otherwise the loops of
  lines 164-183 visit every entry \<open>dd\<close> of the twelve months: \<open>dd.status\<close>
  (line 168) throws when the entry is \<open>null\<close>, yields \<open>undefined\<close> when it is
  another primitive or an array, and the entry is skipped unless its status is
  \<open>null\<close>; then \<open>new Date(year, m, dd.day)\<close> (line 170) converts \<open>dd.day\<close> to a
  number. Nothing else in the function throws: the copy made by \<open>ensureNext\<close>
  spreads every value.
\<close>

definition dayEntryThrows :: "json \<Rightarrow> bool" where
  "dayEntryThrows dd =
     (dd = JNull
      \<or> (getProp dd (js ''status'') = Some JNull \<and> conversionThrows (getProp dd (js ''day''))))"

definition applyAutoSafeThrows :: "json \<Rightarrow> Date \<Rightarrow> int \<Rightarrow> bool" where
  "applyAutoSafeThrows prev now yr =
     (getFullYear now = yr
      \<and> (case prev of
           JArr ms \<Rightarrow>
             list_ex (\<lambda>month. case getProp month (js ''days'') of
                                Some (JArr ds) \<Rightarrow> list_ex dayEntryThrows ds
                              | _ \<Rightarrow> False)
                     (take 12 ms)
         | _ \<Rightarrow> False))"

text \<open>
  Lines 475-476: the calendar handed to \<open>setMonthlyData\<close>, or the exception of
  \<open>applyAutoSafe\<close>. A stored calendar that has the declared type is backfilled as
  the section on the rollover describes.
\<close>

definition loadedMonthly :: "json option \<Rightarrow> Date \<Rightarrow> int \<Rightarrow> error + calendarState" where
  "loadedMonthly data now yr =
     (if isValidMonthlyData data yr
      then (if applyAutoSafeThrows (the data) now yr then Inl TypeError
            else Inr (case asMonthlyData (the data) of
                        Some cal \<Rightarrow> Typed (applyAutoSafe cal now yr)
                      | None \<Rightarrow> Untyped))
      else Inr (Typed (applyAutoSafe (createYearData yr) now yr)))"

text \<open>
  The \<open>try\<close> block, lines 468-503: the state its setters have written when it ends,
  and whether it ended by an exception. Reading \<open>parsed.monthlyData\<close> throws when the
  document is \<open>null\<close>; that and the exception of \<open>applyAutoSafe\<close> come before the
  first setter. The two calls of \<open>Number\<close> come after ten setters, and the second
  after \<open>setBestRecord\<close>.
\<close>

datatype outcome = Completed dashboardState | Threw dashboardState

definition tryLoad ::
  "(json option \<Rightarrow> real option) \<Rightarrow> jsstring \<Rightarrow> stored \<Rightarrow> Date \<Rightarrow> int \<Rightarrow> dashboardState \<Rightarrow> outcome" where
  "tryLoad toNumber nowIso item now yr st =
     (case item of
        NoItem \<Rightarrow> Completed (st\<lparr>monthlyData := Typed (applyAutoSafe (createYearData yr) now yr)\<rparr>)
      | Unparsable \<Rightarrow> Threw st
      | Parsed parsed \<Rightarrow>
          if parsed = JNull then Threw st
          else
            (case loadedMonthly (getProp parsed (js ''monthlyData'')) now yr of
               Inl e \<Rightarrow> Threw st
             | Inr cal \<Rightarrow>
                 let st1 = st\<lparr>
                       monthlyData := cal,
                       announcements := nonEmptyArrayOr DEFAULT_ANNOUNCEMENTS (getProp parsed (js ''announcements'')),
                       posterTop := Some (stringOr DEFAULT_POSTER_TOP (getProp parsed (js ''posterTop''))),
                       posterBottom := Some (stringOr DEFAULT_POSTER_BOTTOM (getProp parsed (js ''posterBottom''))),
                       posterTopZoom := zoomOr1 (getProp parsed (js ''posterTopZoom'')),
                       posterBottomZoom := zoomOr1 (getProp parsed (js ''posterBottomZoom'')),
                       policyImages := policyImagesOr (getProp parsed (js ''policyImages'')),
                       policyZoom := zoomOr1 (getProp parsed (js ''policyZoom'')),
                       targetVars := objectOr DEFAULT_TARGET_VARS (getProp parsed (js ''targetVars'')),
                       targetFormulas := objectOr DEFAULT_TARGET_FORMULAS (getProp parsed (js ''targetFormulas''))\<rparr>
                 in
                 (case finiteOr0 toNumber (getProp parsed (js ''bestRecord'')) of
                    Inl e \<Rightarrow> Threw st1
                  | Inr best \<Rightarrow>
                      let st2 = st1\<lparr>bestRecord := best\<rparr> in
                      (case finiteOr0 toNumber (getProp parsed (js ''lossTimeAccidents'')) of
                         Inl e \<Rightarrow> Threw st2
                       | Inr lta \<Rightarrow>
                           Completed (st2\<lparr>
                             lossTimeAccidents := lta,
                             lastUpdateIso := stringOr nowIso (getProp parsed (js ''lastUpdateIso'')),
                             metrics := nonEmptyArrayOr DEFAULT_METRICS (getProp parsed (js ''metrics''))\<rparr>)))))"

text \<open>The \<open>catch\<close> of line 505: a fresh calendar over whatever the setters have written.\<close>

definition loadFailed :: "Date \<Rightarrow> int \<Rightarrow> dashboardState \<Rightarrow> dashboardState" where
  "loadFailed now yr st = st\<lparr>monthlyData := Typed (applyAutoSafe (createYearData yr) now yr)\<rparr>"

text \<open>
  The load effect, lines 467-507, as a function of the stored item, the clock and the
  state before it.
\<close>

definition load ::
  "(json option \<Rightarrow> real option) \<Rightarrow> jsstring \<Rightarrow> stored \<Rightarrow> Date \<Rightarrow> int \<Rightarrow> dashboardState \<Rightarrow> dashboardState" where
  "load toNumber nowIso item now yr st =
     (case tryLoad toNumber nowIso item now yr st of
        Completed st' \<Rightarrow> st'
      | Threw st' \<Rightarrow> loadFailed now yr st')"


definition throwsAtCalendar :: "json \<Rightarrow> Date \<Rightarrow> int \<Rightarrow> bool" where
  "throwsAtCalendar parsed now yr =
     (parsed = JNull
      \<or> (isValidMonthlyData (getProp parsed (js ''monthlyData'')) yr
          \<and> applyAutoSafeThrows (the (getProp parsed (js ''monthlyData''))) now yr))"

definition throwsAtNumbers :: "json \<Rightarrow> bool" where
  "throwsAtNumbers parsed =
     (conversionThrows (getProp parsed (js ''bestRecord''))
      \<or> conversionThrows (getProp parsed (js ''lossTimeAccidents'')))"

definition throwsOnLoad :: "json \<Rightarrow> Date \<Rightarrow> int \<Rightarrow> bool" where
  "throwsOnLoad parsed now yr = (throwsAtCalendar parsed now yr \<or> throwsAtNumbers parsed)"


subsection \<open>Where the load throws\<close>





lemma isValidMonthlyData_None: "\<not> isValidMonthlyData None yr"
  by (simp add: isValidMonthlyData_def)

lemma finiteOr0_cases:
  "finiteOr0 toNumber v =
     (if conversionThrows v then Inl TypeError
      else Inr (case toNumber v of Some r \<Rightarrow> r | None \<Rightarrow> 0))"
  by (simp add: finiteOr0_def Number_def split: option.splits)



lemma loadedMonthly_Inl_iff:
  "(\<exists>e. loadedMonthly data now yr = Inl e)
     \<longleftrightarrow> isValidMonthlyData data yr \<and> applyAutoSafeThrows (the data) now yr"
  by (simp add: loadedMonthly_def)

lemma loadedMonthly_Inr:
  "\<not> (isValidMonthlyData data yr \<and> applyAutoSafeThrows (the data) now yr)
     \<Longrightarrow> \<exists>c. loadedMonthly data now yr = Inr c"
  by (simp add: loadedMonthly_def)

lemma not_throwsAtCalendar_Inr:
  "\<not> throwsAtCalendar doc now yr
     \<Longrightarrow> \<exists>c. loadedMonthly (getProp doc (js ''monthlyData'')) now yr = Inr c"
  by (rule loadedMonthly_Inr) (simp add: throwsAtCalendar_def)


text \<open>
  The three ways the load of a parsed document ends: an exception before the first
  setter, an exception at one of the two numbers, and no exception.
\<close>

lemma load_throwsAtCalendar:
  "throwsAtCalendar doc now yr \<Longrightarrow>
     load toNumber nowIso (Parsed doc) now yr st = loadFailed now yr st"
  by (auto simp: load_def tryLoad_def throwsAtCalendar_def loadedMonthly_def)

lemma load_not_throwsAtCalendar:
  assumes "\<not> throwsAtCalendar doc now yr"
  shows "announcements (load toNumber nowIso (Parsed doc) now yr st)
           = nonEmptyArrayOr DEFAULT_ANNOUNCEMENTS (getProp doc (js ''announcements''))"
    and "posterTop (load toNumber nowIso (Parsed doc) now yr st)
           = Some (stringOr DEFAULT_POSTER_TOP (getProp doc (js ''posterTop'')))"
    and "posterBottom (load toNumber nowIso (Parsed doc) now yr st)
           = Some (stringOr DEFAULT_POSTER_BOTTOM (getProp doc (js ''posterBottom'')))"
    and "posterTopZoom (load toNumber nowIso (Parsed doc) now yr st)
           = zoomOr1 (getProp doc (js ''posterTopZoom''))"
    and "posterBottomZoom (load toNumber nowIso (Parsed doc) now yr st)
           = zoomOr1 (getProp doc (js ''posterBottomZoom''))"
    and "policyImages (load toNumber nowIso (Parsed doc) now yr st)
           = policyImagesOr (getProp doc (js ''policyImages''))"
    and "policyZoom (load toNumber nowIso (Parsed doc) now yr st)
           = zoomOr1 (getProp doc (js ''policyZoom''))"
    and "targetVars (load toNumber nowIso (Parsed doc) now yr st)
           = objectOr DEFAULT_TARGET_VARS (getProp doc (js ''targetVars''))"
    and "targetFormulas (load toNumber nowIso (Parsed doc) now yr st)
           = objectOr DEFAULT_TARGET_FORMULAS (getProp doc (js ''targetFormulas''))"
proof -
  from assms have n: "doc \<noteq> JNull" by (simp add: throwsAtCalendar_def)
  from assms(1) obtain c where c: "loadedMonthly (getProp doc (js ''monthlyData'')) now yr = Inr c"
    using not_throwsAtCalendar_Inr by blast
  note defs = load_def tryLoad_def loadFailed_def finiteOr0_cases Let_def
  show "announcements (load toNumber nowIso (Parsed doc) now yr st)
           = nonEmptyArrayOr DEFAULT_ANNOUNCEMENTS (getProp doc (js ''announcements''))"
    using n c by (simp add: defs)
  show "posterTop (load toNumber nowIso (Parsed doc) now yr st)
           = Some (stringOr DEFAULT_POSTER_TOP (getProp doc (js ''posterTop'')))"
    using n c by (simp add: defs)
  show "posterBottom (load toNumber nowIso (Parsed doc) now yr st)
           = Some (stringOr DEFAULT_POSTER_BOTTOM (getProp doc (js ''posterBottom'')))"
    using n c by (simp add: defs)
  show "posterTopZoom (load toNumber nowIso (Parsed doc) now yr st)
           = zoomOr1 (getProp doc (js ''posterTopZoom''))"
    using n c by (simp add: defs)
  show "posterBottomZoom (load toNumber nowIso (Parsed doc) now yr st)
           = zoomOr1 (getProp doc (js ''posterBottomZoom''))"
    using n c by (simp add: defs)
  show "policyImages (load toNumber nowIso (Parsed doc) now yr st)
           = policyImagesOr (getProp doc (js ''policyImages''))"
    using n c by (simp add: defs)
  show "policyZoom (load toNumber nowIso (Parsed doc) now yr st)
           = zoomOr1 (getProp doc (js ''policyZoom''))"
    using n c by (simp add: defs)
  show "targetVars (load toNumber nowIso (Parsed doc) now yr st)
           = objectOr DEFAULT_TARGET_VARS (getProp doc (js ''targetVars''))"
    using n c by (simp add: defs)
  show "targetFormulas (load toNumber nowIso (Parsed doc) now yr st)
           = objectOr DEFAULT_TARGET_FORMULAS (getProp doc (js ''targetFormulas''))"
    using n c by (simp add: defs)
qed

lemma load_throwsAtNumbers:
  assumes "\<not> throwsAtCalendar doc now yr" "throwsAtNumbers doc"
  shows "monthlyData (load toNumber nowIso (Parsed doc) now yr st)
           = Typed (applyAutoSafe (createYearData yr) now yr)"
    and "lossTimeAccidents (load toNumber nowIso (Parsed doc) now yr st) = lossTimeAccidents st"
    and "lastUpdateIso (load toNumber nowIso (Parsed doc) now yr st) = lastUpdateIso st"
    and "metrics (load toNumber nowIso (Parsed doc) now yr st) = metrics st"
proof -
  from assms have n: "doc \<noteq> JNull" by (simp add: throwsAtCalendar_def)
  from assms(1) obtain c where c: "loadedMonthly (getProp doc (js ''monthlyData'')) now yr = Inr c"
    using not_throwsAtCalendar_Inr by blast
  note defs = load_def tryLoad_def loadFailed_def finiteOr0_cases Let_def throwsAtNumbers_def
  show "monthlyData (load toNumber nowIso (Parsed doc) now yr st)
           = Typed (applyAutoSafe (createYearData yr) now yr)"
    using n c assms(2) by (auto simp: defs)
  show "lossTimeAccidents (load toNumber nowIso (Parsed doc) now yr st) = lossTimeAccidents st"
    using n c assms(2) by (auto simp: defs)
  show "lastUpdateIso (load toNumber nowIso (Parsed doc) now yr st) = lastUpdateIso st"
    using n c assms(2) by (auto simp: defs)
  show "metrics (load toNumber nowIso (Parsed doc) now yr st) = metrics st"
    using n c assms(2) by (auto simp: defs)
qed

lemma load_not_throwsOnLoad:
  assumes "\<not> throwsOnLoad doc now yr"
  shows "loadedMonthly (getProp doc (js ''monthlyData'')) now yr
           = Inr (monthlyData (load toNumber nowIso (Parsed doc) now yr st))"
    and "finiteOr0 toNumber (getProp doc (js ''bestRecord''))
           = Inr (bestRecord (load toNumber nowIso (Parsed doc) now yr st))"
    and "finiteOr0 toNumber (getProp doc (js ''lossTimeAccidents''))
           = Inr (lossTimeAccidents (load toNumber nowIso (Parsed doc) now yr st))"
    and "lastUpdateIso (load toNumber nowIso (Parsed doc) now yr st)
           = stringOr nowIso (getProp doc (js ''lastUpdateIso''))"
    and "metrics (load toNumber nowIso (Parsed doc) now yr st)
           = nonEmptyArrayOr DEFAULT_METRICS (getProp doc (js ''metrics''))"
proof -
  from assms have n: "doc \<noteq> JNull" by (simp add: throwsOnLoad_def throwsAtCalendar_def)
  from assms have "\<not> throwsAtCalendar doc now yr" by (simp add: throwsOnLoad_def)
  then obtain c where c: "loadedMonthly (getProp doc (js ''monthlyData'')) now yr = Inr c"
    using not_throwsAtCalendar_Inr by blast
  from assms have t: "\<not> conversionThrows (getProp doc (js ''bestRecord''))"
    "\<not> conversionThrows (getProp doc (js ''lossTimeAccidents''))"
    by (simp_all add: throwsOnLoad_def throwsAtNumbers_def)
  note defs = load_def tryLoad_def loadFailed_def finiteOr0_cases Let_def
  show "loadedMonthly (getProp doc (js ''monthlyData'')) now yr
           = Inr (monthlyData (load toNumber nowIso (Parsed doc) now yr st))"
    using n c t by (simp add: defs)
  show "finiteOr0 toNumber (getProp doc (js ''bestRecord''))
           = Inr (bestRecord (load toNumber nowIso (Parsed doc) now yr st))"
    using n c t by (simp add: defs)
  show "finiteOr0 toNumber (getProp doc (js ''lossTimeAccidents''))
           = Inr (lossTimeAccidents (load toNumber nowIso (Parsed doc) now yr st))"
    using n c t by (simp add: defs)
  show "lastUpdateIso (load toNumber nowIso (Parsed doc) now yr st)
           = stringOr nowIso (getProp doc (js ''lastUpdateIso''))"
    using n c t by (simp add: defs)
  show "metrics (load toNumber nowIso (Parsed doc) now yr st)
           = nonEmptyArrayOr DEFAULT_METRICS (getProp doc (js ''metrics''))"
    using n c t by (simp add: defs)
qed


subsection \<open>Stored calendars of the declared type\<close>
















subsection \<open>The claims about the load\<close>


lemma announcements_load:
  "announcements (load toNumber nowIso (Parsed doc) now yr st) =
     (if throwsAtCalendar doc now yr then announcements st
      else nonEmptyArrayOr DEFAULT_ANNOUNCEMENTS (getProp doc (js ''announcements'')))"
  by (simp add: load_throwsAtCalendar loadFailed_def load_not_throwsAtCalendar)

lemma metrics_load:
  "metrics (load toNumber nowIso (Parsed doc) now yr st) =
     (if throwsOnLoad doc now yr then metrics st
      else nonEmptyArrayOr DEFAULT_METRICS (getProp doc (js ''metrics'')))"
proof (cases "throwsAtCalendar doc now yr")
  case True
  then show ?thesis by (simp add: load_throwsAtCalendar loadFailed_def throwsOnLoad_def)
next
  case False
  show ?thesis
  proof (cases "throwsAtNumbers doc")
    case True
    with False show ?thesis by (simp add: load_throwsAtNumbers throwsOnLoad_def)
  next
    case n: False
    with False have "\<not> throwsOnLoad doc now yr" by (simp add: throwsOnLoad_def)
    then show ?thesis by (simp add: load_not_throwsOnLoad)
  qed
qed

text \<open>
  One unreadable field can cost the others. An exception before the first setter (a
  \<open>null\<close> document, or a day entry of a validated calendar that is \<open>null\<close> or has
  a day no number can be made of) leaves every stored field unloaded; an exception at
  \<open>bestRecord\<close> or \<open>lossTimeAccidents\<close> replaces the stored calendar, valid as it
  may be, by a fresh one and leaves the stored metrics unloaded.
\<close>

lemma unreadable_day_entry_discards_lists:
  assumes "isValidMonthlyData (getProp doc (js ''monthlyData'')) yr"
    and "applyAutoSafeThrows (the (getProp doc (js ''monthlyData''))) now yr"
  shows "announcements (load toNumber nowIso (Parsed doc) now yr st) = announcements st
    \<and> metrics (load toNumber nowIso (Parsed doc) now yr st) = metrics st"
  using assms by (simp add: announcements_load metrics_load throwsOnLoad_def throwsAtCalendar_def)

lemma unreadable_number_discards_calendar:
  assumes "\<not> throwsAtCalendar doc now yr"
    and "conversionThrows (getProp doc (js ''bestRecord''))"
  shows "monthlyData (load toNumber nowIso (Parsed doc) now yr st)
           = Typed (applyAutoSafe (createYearData yr) now yr)
    \<and> metrics (load toNumber nowIso (Parsed doc) now yr st) = metrics st"
  using assms by (simp add: load_throwsAtNumbers throwsAtNumbers_def)




definition noNumbers :: "json option \<Rightarrow> real option" where
  "noNumbers v = None"







text \<open>
  Claim C10. A stored \<open>announcements\<close> or \<open>metrics\<close> that is an empty array is
  not kept. Loaded into the initial state, as a reload does, it gives the default list
  on every path; from any state the load sets the default list, unless it throws before
  the setter and leaves the list the state had. A list is taken from storage only
  when it is a non-empty array, so no load into the initial state, whatever the stored
  item, ends with an empty announcement or metric list.
\<close>

theorem empty_lists_replaced_by_defaults:
  "(getProp doc (js ''announcements'') = Some (JArr [])
    \<longrightarrow> announcements (load toNumber nowIso (Parsed doc) now yr (initialState bootIso yr))
          = DEFAULT_ANNOUNCEMENTS
        \<and> announcements (load toNumber nowIso (Parsed doc) now yr st)
          = (if throwsAtCalendar doc now yr then announcements st else DEFAULT_ANNOUNCEMENTS))
   \<and> (getProp doc (js ''metrics'') = Some (JArr [])
    \<longrightarrow> metrics (load toNumber nowIso (Parsed doc) now yr (initialState bootIso yr))
          = DEFAULT_METRICS
        \<and> metrics (load toNumber nowIso (Parsed doc) now yr st)
          = (if throwsOnLoad doc now yr then metrics st else DEFAULT_METRICS))
   \<and> (\<not> throwsAtCalendar doc now yr \<and> getProp doc (js ''announcements'') = Some (JArr xs) \<and> xs \<noteq> []
    \<longrightarrow> announcements (load toNumber nowIso (Parsed doc) now yr st) = xs)
   \<and> (\<not> throwsOnLoad doc now yr \<and> getProp doc (js ''metrics'') = Some (JArr xs) \<and> xs \<noteq> []
    \<longrightarrow> metrics (load toNumber nowIso (Parsed doc) now yr st) = xs)
   \<and> announcements (load toNumber nowIso item now yr (initialState bootIso yr)) \<noteq> []
   \<and> metrics (load toNumber nowIso item now yr (initialState bootIso yr)) \<noteq> []"
proof -
  have d: "DEFAULT_ANNOUNCEMENTS \<noteq> []" "DEFAULT_METRICS \<noteq> []"
    by (simp_all add: DEFAULT_ANNOUNCEMENTS_def DEFAULT_METRICS_def)
  have i: "announcements (initialState bootIso yr) = DEFAULT_ANNOUNCEMENTS"
    "metrics (initialState bootIso yr) = DEFAULT_METRICS"
    by (simp_all add: initialState_def)
  have ne: "nonEmptyArrayOr dflt v \<noteq> []" if "dflt \<noteq> []" for dflt v
    using that by (auto simp: nonEmptyArrayOr_def split: option.splits json.splits)
  have a: "announcements (load toNumber nowIso item now yr (initialState bootIso yr)) \<noteq> []"
  proof (cases item)
    case (Parsed doc')
    then show ?thesis by (simp add: announcements_load i d ne)
  qed (simp_all add: load_def tryLoad_def loadFailed_def i d)
  have m: "metrics (load toNumber nowIso item now yr (initialState bootIso yr)) \<noteq> []"
  proof (cases item)
    case (Parsed doc')
    then show ?thesis by (simp add: metrics_load i d ne)
  qed (simp_all add: load_def tryLoad_def loadFailed_def i d)
  have e: "nonEmptyArrayOr dflt (Some (JArr [])) = dflt" for dflt
    by (simp add: nonEmptyArrayOr_def)
  have k: "nonEmptyArrayOr dflt (Some (JArr xs)) = xs" if "xs \<noteq> []" for dflt
    using that by (simp add: nonEmptyArrayOr_def)
  show ?thesis
    using a m by (simp add: announcements_load metrics_load i e k)
qed

text \<open>
  Three stored documents: empty lists, empty lists next to a \<open>bestRecord\<close> no number
  can be made of, and one entry in each list.
\<close>

definition emptyLists :: json where
  "emptyLists = JObj [(js ''announcements'', JArr []), (js ''metrics'', JArr [])]"

definition emptyListsBadRecord :: json where
  "emptyListsBadRecord =
     JObj [(js ''announcements'', JArr []), (js ''metrics'', JArr []),
           (js ''bestRecord'', JObj [(js ''valueOf'', JNum 1), (js ''toString'', JNum 1)])]"

definition oneOfEach :: json where
  "oneOfEach = JObj [(js ''announcements'', JArr [JStr (js ''hello'')]),
                     (js ''metrics'', JArr [JStr (js ''count'')])]"

theorem empty_lists_replaced_by_defaults_witness:
  "getProp emptyLists (js ''announcements'') = Some (JArr [])
   \<and> getProp emptyLists (js ''metrics'') = Some (JArr [])
   \<and> announcements (load noNumbers [] (Parsed emptyLists) march15_1000 2026 (initialState [] 2026))
        = DEFAULT_ANNOUNCEMENTS
   \<and> metrics (load noNumbers [] (Parsed emptyLists) march15_1000 2026 (initialState [] 2026))
        = DEFAULT_METRICS
   \<and> throwsOnLoad emptyListsBadRecord march15_1000 2026
   \<and> announcements (load noNumbers [] (Parsed emptyListsBadRecord) march15_1000 2026 (initialState [] 2026))
        = DEFAULT_ANNOUNCEMENTS
   \<and> metrics (load noNumbers [] (Parsed emptyListsBadRecord) march15_1000 2026 (initialState [] 2026))
        = DEFAULT_METRICS
   \<and> \<not> throwsOnLoad oneOfEach march15_1000 2026
   \<and> announcements (load noNumbers [] (Parsed oneOfEach) march15_1000 2026 (initialState [] 2026))
        = [JStr (js ''hello'')]
   \<and> metrics (load noNumbers [] (Parsed oneOfEach) march15_1000 2026 (initialState [] 2026))
        = [JStr (js ''count'')]"
proof -
  have a: "getProp emptyLists (js ''announcements'') = Some (JArr [])"
    and m: "getProp emptyLists (js ''metrics'') = Some (JArr [])"
    by (simp_all add: emptyLists_def js_def)
  have a0: "getProp emptyListsBadRecord (js ''announcements'') = Some (JArr [])"
    and m0: "getProp emptyListsBadRecord (js ''metrics'') = Some (JArr [])"
    and t0: "throwsOnLoad emptyListsBadRecord march15_1000 2026"
    by (simp_all add: emptyListsBadRecord_def js_def throwsOnLoad_def throwsAtNumbers_def
        conversionThrows_def)
  have a1: "getProp oneOfEach (js ''announcements'') = Some (JArr [JStr (js ''hello'')])"
    and m1: "getProp oneOfEach (js ''metrics'') = Some (JArr [JStr (js ''count'')])"
    and nt: "\<not> throwsOnLoad oneOfEach march15_1000 2026"
    and nc: "\<not> throwsAtCalendar oneOfEach march15_1000 2026"
    by (simp_all add: oneOfEach_def js_def throwsOnLoad_def throwsAtCalendar_def throwsAtNumbers_def
        conversionThrows_def isValidMonthlyData_def)
  have ne: "[JStr (js ''hello'')] \<noteq> []" "[JStr (js ''count'')] \<noteq> []" by simp_all
  note e = empty_lists_replaced_by_defaults [where doc = emptyLists and toNumber = noNumbers
      and nowIso = "[]" and now = march15_1000 and yr = 2026 and st = "initialState [] 2026"
      and bootIso = "[]"]
  note e0 = empty_lists_replaced_by_defaults [where doc = emptyListsBadRecord and toNumber = noNumbers
      and nowIso = "[]" and now = march15_1000 and yr = 2026 and st = "initialState [] 2026"
      and bootIso = "[]"]
  note k1 = empty_lists_replaced_by_defaults [where doc = oneOfEach and toNumber = noNumbers
      and nowIso = "[]" and now = march15_1000 and yr = 2026 and st = "initialState [] 2026"
      and xs = "[JStr (js ''hello'')]", THEN conjunct2, THEN conjunct2, THEN conjunct1]
  note k2 = empty_lists_replaced_by_defaults [where doc = oneOfEach and toNumber = noNumbers
      and nowIso = "[]" and now = march15_1000 and yr = 2026 and st = "initialState [] 2026"
      and xs = "[JStr (js ''count'')]", THEN conjunct2, THEN conjunct2, THEN conjunct2, THEN conjunct1]
  from e a m have 1: "announcements (load noNumbers [] (Parsed emptyLists) march15_1000 2026 (initialState [] 2026))
        = DEFAULT_ANNOUNCEMENTS
     \<and> metrics (load noNumbers [] (Parsed emptyLists) march15_1000 2026 (initialState [] 2026))
        = DEFAULT_METRICS"
    by blast
  from e0 a0 m0 have 0: "announcements (load noNumbers [] (Parsed emptyListsBadRecord) march15_1000 2026 (initialState [] 2026))
        = DEFAULT_ANNOUNCEMENTS
     \<and> metrics (load noNumbers [] (Parsed emptyListsBadRecord) march15_1000 2026 (initialState [] 2026))
        = DEFAULT_METRICS"
    by blast
  from k1 nc a1 ne have 2: "announcements (load noNumbers [] (Parsed oneOfEach) march15_1000 2026 (initialState [] 2026))
        = [JStr (js ''hello'')]"
    by blast
  from k2 nt m1 ne have 3: "metrics (load noNumbers [] (Parsed oneOfEach) march15_1000 2026 (initialState [] 2026))
        = [JStr (js ''count'')]"
    by blast
  from a m t0 nt 0 1 2 3 show ?thesis by blast
qed

end
